theory Spec2Isabelle
  imports Main "HOL-Library.Multiset"
begin

section \<open>Shared data model\<close>

text \<open>
  Modelled from the spec: the constants modules (\<open>app.constants\<close>, \<open>grepmarx.constants\<close>)
  are not among the sources. The four severity constants the code imports are the four
  tiers of the spec's \<open>SeverityTier\<close> (section 4.1), pairwise different values.
\<close>

datatype severity = SEVERITY_LOW | SEVERITY_MEDIUM | SEVERITY_HIGH | SEVERITY_CRITICAL

text \<open>The exceptions the modelled functions can raise.\<close>

datatype error = KeyError string | TypeError | IndexError | AttributeError | YAMLError

text \<open>
  Modelled from the spec: the ORM classes (\<open>app.projects.models\<close>, \<open>app.base.models\<close>)
  are not among the sources. The records hold the attributes the functions below read
  or write. The type of an occurrence record is left open (\<open>'occ\<close>): only the number of
  occurrences of a vulnerability is ever used.
\<close>

record 'occ Vulnerability =
  severity :: severity
  occurences :: "'occ list"

record VulnerableDependency =
  severity :: severity

record 'occ Analysis =
  vulnerabilities :: "'occ Vulnerability list"
  vulnerable_dependencies :: "VulnerableDependency list"

text \<open>
  A value of the deserialized JSON of the line counter: an integer or a string.
  \<open>LanguageLinesCount.language\<close> stores whatever stands under the key \<open>Name\<close>.
\<close>

datatype jvalue = JInt int | JStr string

record LanguageLinesCount =
  language :: jvalue
  file_count :: int
  line_count :: int
  blank_count :: int
  comment_count :: int
  code_count :: int
  complexity_count :: int

record ProjectLinesCount =
  language_lines_counts :: "LanguageLinesCount list"
  total_file_count :: int
  total_line_count :: int
  total_blank_count :: int
  total_comment_count :: int
  total_code_count :: int
  total_complexity_count :: int

text \<open>\<open>project_id\<close> is the attribute \<open>id\<close> (the primary key) of a project.\<close>

record 'occ Project =
  project_id :: nat
  name :: string
  analysis :: "'occ Analysis option"
  project_lines_count :: "ProjectLinesCount option"

text \<open>
  A user carries a username and a role; the type of roles is left open (\<open>'role\<close>),
  and the constant \<open>ROLE_ADMIN\<close> (not among the sources) is a parameter of
  \<open>has_access\<close>.
\<close>

record 'role User =
  username :: string
  role :: 'role

record ('role, 'occ) Team =
  members :: "'role User list"
  projects :: "'occ Project list"


section \<open>Project utilities (app/projects/util.py)\<close>

subsection \<open>count_occurences\<close>

text \<open>The \<open>for\<close> loop over \<open>project.analysis.vulnerabilities\<close>, with its accumulator.\<close>

fun count_occurences_loop :: "'occ Vulnerability list \<Rightarrow> int \<Rightarrow> int" where
  "count_occurences_loop [] occurences_count = occurences_count"
| "count_occurences_loop (c_vulnerability # rest) occurences_count =
     count_occurences_loop rest (occurences_count + int (length (occurences c_vulnerability)))"

definition count_occurences :: "'occ Project \<Rightarrow> int" where
  "count_occurences project =
     (case analysis project of
        None \<Rightarrow> 0
      | Some a \<Rightarrow> count_occurences_loop (vulnerabilities a) 0)"

subsection \<open>calculate_risk_level\<close>

fun has_vuln_with_severity_loop :: "'occ Vulnerability list \<Rightarrow> severity \<Rightarrow> bool" where
  "has_vuln_with_severity_loop [] severity_level = False"
| "has_vuln_with_severity_loop (vuln # rest) severity_level =
     (if Vulnerability.severity vuln = severity_level then True
      else has_vuln_with_severity_loop rest severity_level)"

definition has_vuln_with_severity :: "'occ Analysis \<Rightarrow> severity \<Rightarrow> bool" where
  "has_vuln_with_severity a severity_level =
     has_vuln_with_severity_loop (vulnerabilities a) severity_level"

fun has_vuln_dep_with_severity_loop :: "VulnerableDependency list \<Rightarrow> severity \<Rightarrow> bool" where
  "has_vuln_dep_with_severity_loop [] severity_level = False"
| "has_vuln_dep_with_severity_loop (vuln # rest) severity_level =
     (if VulnerableDependency.severity vuln = severity_level then True
      else has_vuln_dep_with_severity_loop rest severity_level)"

definition has_vuln_dep_with_severity :: "'occ Analysis \<Rightarrow> severity \<Rightarrow> bool" where
  "has_vuln_dep_with_severity a severity_level =
     has_vuln_dep_with_severity_loop (vulnerable_dependencies a) severity_level"

text \<open>
  The two dictionaries \<open>s2rl\<close>, as association lists in insertion order (the order in
  which \<open>for s in s2rl\<close> visits the keys).
\<close>

definition s2rl_base :: "(severity \<times> int) list" where
  "s2rl_base =
     [(SEVERITY_CRITICAL, 75), (SEVERITY_HIGH, 60), (SEVERITY_MEDIUM, 40), (SEVERITY_LOW, 20)]"

definition s2rl_adjust :: "(severity \<times> int) list" where
  "s2rl_adjust =
     [(SEVERITY_CRITICAL, 10), (SEVERITY_HIGH, 8), (SEVERITY_MEDIUM, 5), (SEVERITY_LOW, 2)]"

text \<open>The first loop: it assigns and leaves at the first severity found (\<open>break\<close>).\<close>

fun base_loop :: "(severity \<times> int) list \<Rightarrow> 'occ Analysis \<Rightarrow> int \<Rightarrow> int" where
  "base_loop [] a risk_level = risk_level"
| "base_loop ((s, v) # rest) a risk_level =
     (if has_vuln_with_severity a s then v else base_loop rest a risk_level)"

text \<open>The second loop: it adds and goes on to the next severity (there is no \<open>break\<close>).\<close>

fun adjust_loop :: "(severity \<times> int) list \<Rightarrow> 'occ Analysis \<Rightarrow> int \<Rightarrow> int" where
  "adjust_loop [] a risk_level = risk_level"
| "adjust_loop ((s, v) # rest) a risk_level =
     adjust_loop rest a (if has_vuln_dep_with_severity a s then risk_level + v else risk_level)"

definition calculate_risk_level :: "'occ Project \<Rightarrow> int" where
  "calculate_risk_level project =
     (case analysis project of
        None \<Rightarrow> 0
      | Some a \<Rightarrow>
          (case project_lines_count project of
             None \<Rightarrow> 0
           | Some lc \<Rightarrow>
               if total_code_count lc > 0
               then adjust_loop s2rl_adjust a (base_loop s2rl_base a 0)
               else 0))"

text \<open>
  The score as the specification words it (section 4.2): the base value of the highest
  tier among the vulnerabilities, plus the increment of the highest tier among the
  vulnerable dependencies only.
\<close>

definition spec_highest_tier :: "severity list \<Rightarrow> severity option" where
  "spec_highest_tier tiers =
     (if SEVERITY_CRITICAL \<in> set tiers then Some SEVERITY_CRITICAL
      else if SEVERITY_HIGH \<in> set tiers then Some SEVERITY_HIGH
      else if SEVERITY_MEDIUM \<in> set tiers then Some SEVERITY_MEDIUM
      else if SEVERITY_LOW \<in> set tiers then Some SEVERITY_LOW
      else None)"

definition spec_base_score :: "'occ Analysis \<Rightarrow> int" where
  "spec_base_score a =
     (case spec_highest_tier (map Vulnerability.severity (vulnerabilities a)) of
        None \<Rightarrow> 0
      | Some SEVERITY_CRITICAL \<Rightarrow> 75
      | Some SEVERITY_HIGH \<Rightarrow> 60
      | Some SEVERITY_MEDIUM \<Rightarrow> 40
      | Some SEVERITY_LOW \<Rightarrow> 20)"

definition spec_single_increment :: "'occ Analysis \<Rightarrow> int" where
  "spec_single_increment a =
     (case spec_highest_tier (map VulnerableDependency.severity (vulnerable_dependencies a)) of
        None \<Rightarrow> 0
      | Some SEVERITY_CRITICAL \<Rightarrow> 10
      | Some SEVERITY_HIGH \<Rightarrow> 8
      | Some SEVERITY_MEDIUM \<Rightarrow> 5
      | Some SEVERITY_LOW \<Rightarrow> 2)"

text \<open>The adjustment the code computes: one increment for every tier that is present.\<close>

definition increment_if_present :: "severity \<Rightarrow> int \<Rightarrow> 'occ Analysis \<Rightarrow> int" where
  "increment_if_present s v a =
     (if s \<in> set (map VulnerableDependency.severity (vulnerable_dependencies a)) then v else 0)"

definition summed_increments :: "'occ Analysis \<Rightarrow> int" where
  "summed_increments a =
     increment_if_present SEVERITY_CRITICAL 10 a + increment_if_present SEVERITY_HIGH 8 a
     + increment_if_present SEVERITY_MEDIUM 5 a + increment_if_present SEVERITY_LOW 2 a"

subsection \<open>top_language_lines_counts\<close>

text \<open>
  \<open>sorted(xs, key=key, reverse=True)\<close> for integer keys: the stable sort with every
  comparison reversed, which is the stable ascending sort by the negated key.
\<close>

definition sorted_reverse :: "('a \<Rightarrow> int) \<Rightarrow> 'a list \<Rightarrow> 'a list" where
  "sorted_reverse key xs = sort_key (\<lambda>x. - key x) xs"

text \<open>
  The slice \<open>xs[:n]\<close>: the first \<open>n\<close> elements for \<open>n \<ge> 0\<close>; for a negative \<open>n\<close>
  Python counts from the end and drops the last \<open>-n\<close> elements.
\<close>

definition slice_to :: "'a list \<Rightarrow> int \<Rightarrow> 'a list" where
  "slice_to xs n =
     (if n < 0 then take (nat (int (length xs) + n)) xs else take (nat n) xs)"

definition top_language_lines_counts :: "ProjectLinesCount \<Rightarrow> int \<Rightarrow> LanguageLinesCount list" where
  "top_language_lines_counts project_lc top_number =
     slice_to (sorted_reverse code_count (language_lines_counts project_lc)) top_number"

subsection \<open>load_project_lines_count\<close>

text \<open>
  An element of the deserialized tool output is a dictionary; \<open>c[k]\<close> raises
  \<open>KeyError\<close> on a missing key.
\<close>

type_synonym scc_entry = "string \<rightharpoonup> jvalue"

definition bind_result :: "error + 'a \<Rightarrow> ('a \<Rightarrow> error + 'b) \<Rightarrow> error + 'b" where
  "bind_result m f = (case m of Inl e \<Rightarrow> Inl e | Inr x \<Rightarrow> f x)"

definition getitem :: "scc_entry \<Rightarrow> string \<Rightarrow> error + jvalue" where
  "getitem c k = (case c k of None \<Rightarrow> Inl (KeyError k) | Some v \<Rightarrow> Inr v)"

text \<open>The right operand of \<open>total += c[k]\<close>, the total being an integer: a string raises.\<close>

definition int_operand :: "jvalue \<Rightarrow> error + int" where
  "int_operand v = (case v of JInt n \<Rightarrow> Inr n | JStr s \<Rightarrow> Inl TypeError)"

text \<open>
  One turn of the loop. The constructor call reads the seven keys in the order written;
  the six \<open>+=\<close> follow, in their order. The object appended to
  \<open>language_lines_counts\<close> before a failing \<open>+=\<close> is lost with the exception.
\<close>

definition load_entry :: "scc_entry \<Rightarrow> ProjectLinesCount \<Rightarrow> error + ProjectLinesCount" where
  "load_entry c project_lc =
     bind_result (getitem c ''Name'') (\<lambda>name.
     bind_result (getitem c ''Count'') (\<lambda>count.
     bind_result (getitem c ''Lines'') (\<lambda>lines.
     bind_result (getitem c ''Blank'') (\<lambda>blank.
     bind_result (getitem c ''Comment'') (\<lambda>comment.
     bind_result (getitem c ''Code'') (\<lambda>code.
     bind_result (getitem c ''Complexity'') (\<lambda>complexity.
     bind_result (int_operand count) (\<lambda>n_count.
     bind_result (int_operand lines) (\<lambda>n_lines.
     bind_result (int_operand blank) (\<lambda>n_blank.
     bind_result (int_operand comment) (\<lambda>n_comment.
     bind_result (int_operand code) (\<lambda>n_code.
     bind_result (int_operand complexity) (\<lambda>n_complexity.
       Inr \<lparr>language_lines_counts = language_lines_counts project_lc @
              [\<lparr>language = name, file_count = n_count, line_count = n_lines,
                blank_count = n_blank, comment_count = n_comment, code_count = n_code,
                complexity_count = n_complexity\<rparr>],
            total_file_count = total_file_count project_lc + n_count,
            total_line_count = total_line_count project_lc + n_lines,
            total_blank_count = total_blank_count project_lc + n_blank,
            total_comment_count = total_comment_count project_lc + n_comment,
            total_code_count = total_code_count project_lc + n_code,
            total_complexity_count = total_complexity_count project_lc + n_complexity\<rparr>
     )))))))))))))"

fun load_loop :: "scc_entry list \<Rightarrow> ProjectLinesCount \<Rightarrow> error + ProjectLinesCount" where
  "load_loop [] project_lc = Inr project_lc"
| "load_loop (c # rest) project_lc =
     (case load_entry c project_lc of
        Inl e \<Rightarrow> Inl e
      | Inr project_lc' \<Rightarrow> load_loop rest project_lc')"

definition load_project_lines_count :: "scc_entry list \<Rightarrow> error + ProjectLinesCount" where
  "load_project_lines_count scc_result =
     load_loop scc_result
       \<lparr>language_lines_counts = [], total_file_count = 0, total_line_count = 0,
        total_blank_count = 0, total_comment_count = 0, total_code_count = 0,
        total_complexity_count = 0\<rparr>"

text \<open>
  An element of the tool output that follows the tool's contract: all seven keys, the
  six counters integers.
\<close>

definition counter_keys :: "string list" where
  "counter_keys = [''Count'', ''Lines'', ''Blank'', ''Comment'', ''Code'', ''Complexity'']"

definition scc_well_formed :: "scc_entry \<Rightarrow> bool" where
  "scc_well_formed c \<longleftrightarrow>
     c ''Name'' \<noteq> None \<and> list_all (\<lambda>k. \<exists>n. c k = Some (JInt n)) counter_keys"

text \<open>The invariant of the spec's data model: every total is the sum over the languages.\<close>

definition totals_are_sums :: "ProjectLinesCount \<Rightarrow> bool" where
  "totals_are_sums plc \<longleftrightarrow>
     total_file_count plc = sum_list (map file_count (language_lines_counts plc))
   \<and> total_line_count plc = sum_list (map line_count (language_lines_counts plc))
   \<and> total_blank_count plc = sum_list (map blank_count (language_lines_counts plc))
   \<and> total_comment_count plc = sum_list (map comment_count (language_lines_counts plc))
   \<and> total_code_count plc = sum_list (map code_count (language_lines_counts plc))
   \<and> total_complexity_count plc = sum_list (map complexity_count (language_lines_counts plc))"

text \<open>\<open>entry_of l c\<close>: the LanguageLinesCount \<open>l\<close> holds the seven values of the element \<open>c\<close>.\<close>

definition entry_of :: "LanguageLinesCount \<Rightarrow> scc_entry \<Rightarrow> bool" where
  "entry_of l c \<longleftrightarrow>
     c ''Name'' = Some (language l) \<and> c ''Count'' = Some (JInt (file_count l))
   \<and> c ''Lines'' = Some (JInt (line_count l)) \<and> c ''Blank'' = Some (JInt (blank_count l))
   \<and> c ''Comment'' = Some (JInt (comment_count l)) \<and> c ''Code'' = Some (JInt (code_count l))
   \<and> c ''Complexity'' = Some (JInt (complexity_count l))"

subsection \<open>has_access\<close>

text \<open>
  \<open>teams\<close> is the table \<open>Team\<close>. The first query keeps the teams that have a member with
  the username of \<open>current_user\<close>, the second the teams that have a project with the
  name of \<open>project\<close>.
\<close>

definition has_access ::
  "'role \<Rightarrow> ('role, 'occ) Team list \<Rightarrow> 'role User \<Rightarrow> 'occ Project \<Rightarrow> bool" where
  "has_access ROLE_ADMIN teams current_user project =
     (if role current_user = ROLE_ADMIN then True
      else
        let user_teams =
              set (filter (\<lambda>t. \<exists>m \<in> set (members t). username m = username current_user) teams);
            project_teams =
              set (filter (\<lambda>t. \<exists>p \<in> set (projects t). Project.name p = Project.name project) teams)
        in if user_teams \<inter> project_teams = {} then False else True)"

text \<open>
  Access as the specification words it (section 4.5): the teams the user is a member of
  and the teams the project belongs to share a team.
\<close>

definition spec_has_access ::
  "'role \<Rightarrow> ('role, 'occ) Team list \<Rightarrow> 'role User \<Rightarrow> 'occ Project \<Rightarrow> bool" where
  "spec_has_access ROLE_ADMIN teams current_user project \<longleftrightarrow>
     role current_user = ROLE_ADMIN
     \<or> set (filter (\<lambda>t. current_user \<in> set (members t)) teams)
        \<inter> set (filter (\<lambda>t. project \<in> set (projects t)) teams) \<noteq> {}"


section \<open>Rule utilities (grepmarx/rules/util.py)\<close>

subsection \<open>Strings\<close>

text \<open>
  Strings are sequences of 8-bit characters (code points below 256). Among these the
  decimal digits that \<open>\d\<close> matches are \<open>0\<close> to \<open>9\<close>, and the letters that have
  another case within the range are the ASCII letters and the accented letters
  \<open>0xC0\<close> to \<open>0xDE\<close> (upper case, without \<open>0xD7\<close>) and \<open>0xE0\<close> to \<open>0xFE\<close> (lower case,
  without \<open>0xF7\<close>).
\<close>

definition is_digit :: "char \<Rightarrow> bool" where
  "is_digit c \<longleftrightarrow> c \<in> set ''0123456789''"

definition lowercase_letters :: string where
  "lowercase_letters = ''abcdefghijklmnopqrstuvwxyz'' @
       [CHR 0xE0, CHR 0xE1, CHR 0xE2, CHR 0xE3, CHR 0xE4, CHR 0xE5, CHR 0xE6, CHR 0xE7,
        CHR 0xE8, CHR 0xE9, CHR 0xEA, CHR 0xEB, CHR 0xEC, CHR 0xED, CHR 0xEE, CHR 0xEF,
        CHR 0xF0, CHR 0xF1, CHR 0xF2, CHR 0xF3, CHR 0xF4, CHR 0xF5, CHR 0xF6, CHR 0xF8,
        CHR 0xF9, CHR 0xFA, CHR 0xFB, CHR 0xFC, CHR 0xFD, CHR 0xFE]"

definition uppercase_letters :: string where
  "uppercase_letters = ''ABCDEFGHIJKLMNOPQRSTUVWXYZ'' @
       [CHR 0xC0, CHR 0xC1, CHR 0xC2, CHR 0xC3, CHR 0xC4, CHR 0xC5, CHR 0xC6, CHR 0xC7,
        CHR 0xC8, CHR 0xC9, CHR 0xCA, CHR 0xCB, CHR 0xCC, CHR 0xCD, CHR 0xCE, CHR 0xCF,
        CHR 0xD0, CHR 0xD1, CHR 0xD2, CHR 0xD3, CHR 0xD4, CHR 0xD5, CHR 0xD6, CHR 0xD8,
        CHR 0xD9, CHR 0xDA, CHR 0xDB, CHR 0xDC, CHR 0xDD, CHR 0xDE]"

definition upper_char :: "char \<Rightarrow> char" where
  "upper_char c =
     (case map_of (zip lowercase_letters uppercase_letters) c of Some u \<Rightarrow> u | None \<Rightarrow> c)"

definition lower_char :: "char \<Rightarrow> char" where
  "lower_char c =
     (case map_of (zip uppercase_letters lowercase_letters) c of Some l \<Rightarrow> l | None \<Rightarrow> c)"

subsection \<open>generate_severity\<close>

text \<open>
  The pattern \<open>(CWE-\d+)\<close> under \<open>re.IGNORECASE\<close>, tried at the start of a string: the
  letters in either case, the hyphen, and the longest run of digits, which must not be
  empty. The result is the text of group 1.
\<close>

fun match_cwe_at_start :: "string \<Rightarrow> string option" where
  "match_cwe_at_start (c1 # c2 # c3 # c4 # d # rest) =
     (if (c1 = CHR ''C'' \<or> c1 = CHR ''c'') \<and> (c2 = CHR ''W'' \<or> c2 = CHR ''w'')
         \<and> (c3 = CHR ''E'' \<or> c3 = CHR ''e'') \<and> c4 = CHR ''-'' \<and> is_digit d
      then Some ([c1, c2, c3, c4] @ takeWhile is_digit (d # rest))
      else None)"
| "match_cwe_at_start s = None"

text \<open>\<open>re.search\<close>: the match at the leftmost position that has one.\<close>

fun re_search_cwe :: "string \<Rightarrow> string option" where
  "re_search_cwe [] = None"
| "re_search_cwe (c # cs) =
     (case match_cwe_at_start (c # cs) of
        Some m \<Rightarrow> Some m
      | None \<Rightarrow> re_search_cwe cs)"

text \<open>
  The table \<open>TOP40_CWE_SEVERITIES\<close> is not among the sources: it is a parameter. The
  matched text holds ASCII letters, a hyphen and digits, on which \<open>upper\<close> is
  \<open>map upper_char\<close>.
\<close>

definition generate_severity :: "(string \<rightharpoonup> severity) \<Rightarrow> string option \<Rightarrow> severity" where
  "generate_severity TOP40_CWE_SEVERITIES cwe_string =
     (case cwe_string of
        None \<Rightarrow> SEVERITY_LOW
      | Some s \<Rightarrow>
          (case re_search_cwe s of
             None \<Rightarrow> SEVERITY_LOW
           | Some m \<Rightarrow>
               (let cwe_id = map upper_char m in
                case TOP40_CWE_SEVERITIES cwe_id of
                  Some tier \<Rightarrow> tier
                | None \<Rightarrow> SEVERITY_MEDIUM)))"

text \<open>
  The claim's pattern, by positions: \<open>CWE-\<close> in either case of the letters stands at
  position \<open>i\<close> of \<open>s\<close> and a digit follows it.
\<close>

definition cwe_match_at :: "string \<Rightarrow> nat \<Rightarrow> bool" where
  "cwe_match_at s i \<longleftrightarrow>
     i + 4 < length s
     \<and> (s ! i = CHR ''C'' \<or> s ! i = CHR ''c'')
     \<and> (s ! (i + 1) = CHR ''W'' \<or> s ! (i + 1) = CHR ''w'')
     \<and> (s ! (i + 2) = CHR ''E'' \<or> s ! (i + 2) = CHR ''e'')
     \<and> s ! (i + 3) = CHR ''-''
     \<and> is_digit (s ! (i + 4))"

subsection \<open>The rule store and the rule files\<close>

text \<open>
  Modelled from the spec: the ORM classes \<open>Rule\<close>, \<open>RuleRepository\<close> and
  \<open>SupportedLanguage\<close> (\<open>grepmarx.rules.models\<close>) and the database session
  (\<open>grepmarx.db\<close>) are not among the sources. A rule has the attributes of section 3 of
  the specification; \<open>rule_id\<close> is its attribute \<open>id\<close>, the primary key. The
  attributes that the constructor call of \<open>sync_db\<close> does not set start as \<open>None\<close>.
  The associated languages are a set, as section 3 has them: \<open>languages.append\<close>
  associates a language with the rule, and a language that is associated already
  stays associated once (the table of the associations holds a pair of a rule and a
  language once). The set is empty at the creation of a rule.
\<close>

record SupportedLanguage =
  name :: string

record RuleRepository =
  name :: string

record Rule =
  rule_id :: nat
  title :: string
  file_path :: string
  repository :: "RuleRepository option"
  category :: string
  cwe :: "string option"
  owasp :: "string option"
  severity :: "severity option"
  languages :: "SupportedLanguage set"

text \<open>
  The session: \<open>committed\<close> is the table of rules as last committed, \<open>session\<close> the
  table as the session sees it, with its pending changes. A query flushes the pending
  changes first (the session's default), so it reads \<open>session\<close>; \<open>commit\<close> makes the
  pending changes permanent and \<open>rollback\<close> drops them. Rows are kept in the order of
  their creation, in which a query returns them.
\<close>

record rule_db =
  committed :: "Rule list"
  session :: "Rule list"

definition commit :: "rule_db \<Rightarrow> rule_db" where
  "commit db = db\<lparr>committed := session db\<rparr>"

definition rollback :: "rule_db \<Rightarrow> rule_db" where
  "rollback db = db\<lparr>session := committed db\<rparr>"

text \<open>
  What \<open>sync_db\<close> reads and never writes: the constants \<open>RULES_PATH\<close> and
  \<open>TOP40_CWE_SEVERITIES\<close> (not among the sources) and the tables of the supported
  languages and of the rule repositories.
\<close>

record sync_env =
  RULES_PATH :: string
  TOP40_CWE_SEVERITIES :: "string \<rightharpoonup> severity"
  supported_languages :: "SupportedLanguage list"
  rule_repositories :: "RuleRepository list"

text \<open>
  A rule file after \<open>safe_load\<close>, in the format of section 6 of the specification: the
  document is empty (\<open>None\<close>) or a mapping that may have a list under \<open>rules\<close>; a rule
  entry is a mapping that may have the keys \<open>id\<close>, \<open>languages\<close> and \<open>metadata\<close>, the
  metadata the keys \<open>cwe\<close> and \<open>owasp\<close>, the latter a string or a list of strings.
\<close>

datatype owasp_value = OwaspStr string | OwaspList "string list"

record rule_metadata =
  metadata_cwe :: "string option"
  metadata_owasp :: "owasp_value option"

record rule_entry =
  entry_id :: "string option"
  entry_languages :: "string list option"
  entry_metadata :: "rule_metadata option"

datatype yaml_document = YNone | YMapping "rule_entry list option"

text \<open>
  A file of the checkout: its name as \<open>glob\<close> returns it, and what \<open>safe_load\<close> does
  with its content (\<open>Inl\<close>: the exception it raises).
\<close>

type_synonym rule_file = "string \<times> (error + yaml_document)"

subsection \<open>String functions of the path computation\<close>

text \<open>\<open>s.replace(old, new)\<close>: every occurrence, left to right, without overlap.\<close>

function str_replace :: "string \<Rightarrow> string \<Rightarrow> string \<Rightarrow> string" where
  "str_replace s old new =
     (if old = [] then new @ concat (map (\<lambda>c. c # new) s)
      else if s = [] then []
      else if take (length old) s = old then new @ str_replace (drop (length old) s) old new
      else hd s # str_replace (tl s) old new)"
  by pat_completeness auto
termination
  by (relation "measure (\<lambda>(s, old, new). length s)") auto

declare str_replace.simps [simp del]

text \<open>\<open>s.split(sep)\<close> for a separator of one character; the result is never empty.\<close>

fun str_split :: "string \<Rightarrow> char \<Rightarrow> string list" where
  "str_split [] sep = [[]]"
| "str_split (c # cs) sep =
     (if c = sep then [] # str_split cs sep
      else (case str_split cs sep of
              w # ws \<Rightarrow> (c # w) # ws
            | [] \<Rightarrow> [[c]]))"

text \<open>\<open>sep.join(parts)\<close>.\<close>

fun str_join :: "string \<Rightarrow> string list \<Rightarrow> string" where
  "str_join sep [] = []"
| "str_join sep [p] = p"
| "str_join sep (p # q # ps) = p @ sep @ str_join sep (q # ps)"

text \<open>\<open>os.path.sep\<close> on the POSIX systems the application runs on.\<close>

definition os_path_sep :: char where
  "os_path_sep = CHR ''/''"

subsection \<open>sync_db\<close>

text \<open>\<open>Rule.query.filter_by(file_path=file_path).first()\<close>: the place of the first such row.\<close>

fun first_index :: "('a \<Rightarrow> bool) \<Rightarrow> 'a list \<Rightarrow> nat option" where
  "first_index P [] = None"
| "first_index P (x # xs) = (if P x then Some 0 else map_option Suc (first_index P xs))"

text \<open>The primary key the database gives a new row: one more than the greatest in use.\<close>

definition new_rule_id :: "Rule list \<Rightarrow> nat" where
  "new_rule_id rules = Suc (fold max (map rule_id rules) 0)"

text \<open>
  The two loops over \<open>c_rule["languages"]\<close> and \<open>supported_languages\<close>: the supported
  languages that \<open>append\<close> is called with, in the order of the calls.
\<close>

definition matching_languages :: "SupportedLanguage list \<Rightarrow> string list \<Rightarrow> SupportedLanguage list" where
  "matching_languages sls c_languages =
     concat (map (\<lambda>c_language.
        filter (\<lambda>c_sl. map lower_char (SupportedLanguage.name c_sl) = map lower_char c_language) sls)
        c_languages)"

text \<open>
  The end of a turn of the loop: the severity is recomputed from \<open>rule.cwe\<close>, and the
  argument of the debug message reads \<open>rule.repository.name\<close>, which raises
  \<open>AttributeError\<close> when the rule has no repository.
\<close>

definition set_severity_and_log :: "sync_env \<Rightarrow> Rule \<Rightarrow> error option \<times> Rule" where
  "set_severity_and_log env rule =
     (let rule' = rule\<lparr>severity := Some (generate_severity (TOP40_CWE_SEVERITIES env) (cwe rule))\<rparr>
      in case repository rule' of
           None \<Rightarrow> (Some AttributeError, rule')
         | Some r \<Rightarrow> (None, rule'))"

text \<open>
  The part of a turn of the loop that works on the rule object (languages, metadata,
  severity). It returns the exception raised, if any, and the object as it then is.
  \<open>c_rule["metadata"]["owasp"][0]\<close> raises \<open>IndexError\<close> on an empty list.
\<close>

definition update_rule :: "sync_env \<Rightarrow> rule_entry \<Rightarrow> Rule \<Rightarrow> error option \<times> Rule" where
  "update_rule env c_rule rule =
     (let rule1 = (case entry_languages c_rule of
                     None \<Rightarrow> rule
                   | Some c_languages \<Rightarrow>
                       rule\<lparr>languages := languages rule
                              \<union> set (matching_languages (supported_languages env) c_languages)\<rparr>)
      in case entry_metadata c_rule of
           None \<Rightarrow> set_severity_and_log env rule1
         | Some metadata \<Rightarrow>
             (let rule2 = (case metadata_cwe metadata of
                             None \<Rightarrow> rule1
                           | Some c \<Rightarrow> rule1\<lparr>cwe := Some c\<rparr>)
              in case metadata_owasp metadata of
                   None \<Rightarrow> set_severity_and_log env rule2
                 | Some (OwaspList []) \<Rightarrow> (Some IndexError, rule2)
                 | Some (OwaspList (x # xs)) \<Rightarrow> set_severity_and_log env (rule2\<lparr>owasp := Some x\<rparr>)
                 | Some (OwaspStr x) \<Rightarrow> set_severity_and_log env (rule2\<lparr>owasp := Some x\<rparr>)))"

text \<open>
  One turn of the loop over the rule entries of a file, on the rules of the session. The
  rule is looked up by its file path; only when there is none a new one is made (the
  constructor reads \<open>c_rule["id"]\<close>, which raises \<open>KeyError\<close> when the key is missing)
  and added to the session.
\<close>

definition sync_rule ::
  "sync_env \<Rightarrow> string \<Rightarrow> string \<Rightarrow> string \<Rightarrow> rule_entry \<Rightarrow> Rule list \<Rightarrow> error option \<times> Rule list" where
  "sync_rule env fpath repo_name categ c_rule rules =
     (case first_index (\<lambda>r. file_path r = fpath) rules of
        Some i \<Rightarrow>
          (case update_rule env c_rule (rules ! i) of
             (e, rule') \<Rightarrow> (e, rules[i := rule']))
      | None \<Rightarrow>
          (case entry_id c_rule of
             None \<Rightarrow> (Some (KeyError ''id''), rules)
           | Some t \<Rightarrow>
               (case update_rule env c_rule
                       \<lparr>rule_id = new_rule_id rules, title = t, file_path = fpath,
                        repository = find (\<lambda>r. RuleRepository.name r = repo_name)
                                       (rule_repositories env),
                        category = categ, cwe = None, owasp = None, severity = None,
                        languages = {}\<rparr> of
                  (e, rule') \<Rightarrow> (e, rules @ [rule']))))"

fun sync_rules ::
  "sync_env \<Rightarrow> string \<Rightarrow> string \<Rightarrow> string \<Rightarrow> rule_entry list \<Rightarrow> Rule list \<Rightarrow> error option \<times> Rule list" where
  "sync_rules env fpath repo_name categ [] rules = (None, rules)"
| "sync_rules env fpath repo_name categ (c_rule # rest) rules =
     (case sync_rule env fpath repo_name categ c_rule rules of
        (None, rules') \<Rightarrow> sync_rules env fpath repo_name categ rest rules'
      | (Some e, rules') \<Rightarrow> (Some e, rules'))"

text \<open>
  One turn of the loop over the files: the \<open>try\<close> statement. Only \<open>YAMLError\<close> is
  caught (rollback, and raised again); any other exception leaves the function with
  the session as it is; without exception the session is committed.
\<close>

definition sync_file :: "sync_env \<Rightarrow> rule_file \<Rightarrow> rule_db \<Rightarrow> error option \<times> rule_db" where
  "sync_file env file db =
     (case file of (c_filename, loaded) \<Rightarrow>
        (case loaded of
           Inl e \<Rightarrow> (if e = YAMLError then (Some e, rollback db) else (Some e, db))
         | Inr yml_rules \<Rightarrow>
             (let fpath = str_replace c_filename (RULES_PATH env) [];
                  repo_name = hd (str_split fpath os_path_sep);
                  categ = str_join ''.'' (butlast (tl (str_split fpath os_path_sep)))
              in case yml_rules of
                   YNone \<Rightarrow> (Some TypeError, db)
                 | YMapping None \<Rightarrow> (None, commit db)
                 | YMapping (Some c_rules) \<Rightarrow>
                     (case sync_rules env fpath repo_name categ c_rules (session db) of
                        (None, rules') \<Rightarrow> (None, commit (db\<lparr>session := rules'\<rparr>))
                      | (Some e, rules') \<Rightarrow> (Some e, db\<lparr>session := rules'\<rparr>)))))"

text \<open>
  The loop over the files that \<open>glob\<close> found; \<open>files\<close> is this list with the content
  of each file. The result is the exception that left the function, if any, and the
  state of the database.
\<close>

fun sync_files :: "sync_env \<Rightarrow> rule_file list \<Rightarrow> rule_db \<Rightarrow> error option \<times> rule_db" where
  "sync_files env [] db = (None, db)"
| "sync_files env (file # rest) db =
     (case sync_file env file db of
        (None, db') \<Rightarrow> sync_files env rest db'
      | (Some e, db') \<Rightarrow> (Some e, db'))"

definition sync_db :: "sync_env \<Rightarrow> rule_file list \<Rightarrow> rule_db \<Rightarrow> error option \<times> rule_db" where
  "sync_db env files db = sync_files env files db"

subsection \<open>Notions for the properties of sync_db\<close>

text \<open>What the constructor call of \<open>sync_db\<close> builds.\<close>

definition new_rule :: "sync_env \<Rightarrow> Rule list \<Rightarrow> string \<Rightarrow> string \<Rightarrow> string \<Rightarrow> string \<Rightarrow> Rule" where
  "new_rule env rules t fpath repo_name categ =
     \<lparr>rule_id = new_rule_id rules, title = t, file_path = fpath,
      repository = find (\<lambda>r. RuleRepository.name r = repo_name) (rule_repositories env),
      category = categ, cwe = None, owasp = None, severity = None, languages = {}\<rparr>"

text \<open>An entry whose \<open>owasp\<close> value, if it is a list, is not the empty list.\<close>

definition entry_owasp_ok :: "rule_entry \<Rightarrow> bool" where
  "entry_owasp_ok c_rule \<longleftrightarrow>
     (case entry_metadata c_rule of
        None \<Rightarrow> True
      | Some metadata \<Rightarrow> metadata_owasp metadata \<noteq> Some (OwaspList []))"

text \<open>What an entry adds to the languages, and the values it gives \<open>cwe\<close> and \<open>owasp\<close>.\<close>

definition entry_langs :: "sync_env \<Rightarrow> rule_entry \<Rightarrow> SupportedLanguage list" where
  "entry_langs env c_rule =
     (case entry_languages c_rule of
        None \<Rightarrow> []
      | Some c_languages \<Rightarrow> matching_languages (supported_languages env) c_languages)"

definition entry_cwe :: "rule_entry \<Rightarrow> string option \<Rightarrow> string option" where
  "entry_cwe c_rule old =
     (case entry_metadata c_rule of
        None \<Rightarrow> old
      | Some metadata \<Rightarrow> (case metadata_cwe metadata of None \<Rightarrow> old | Some c \<Rightarrow> Some c))"

definition entry_owasp :: "rule_entry \<Rightarrow> string option \<Rightarrow> string option" where
  "entry_owasp c_rule old =
     (case entry_metadata c_rule of
        None \<Rightarrow> old
      | Some metadata \<Rightarrow>
          (case metadata_owasp metadata of
             None \<Rightarrow> old
           | Some (OwaspStr x) \<Rightarrow> Some x
           | Some (OwaspList []) \<Rightarrow> old
           | Some (OwaspList (x # xs)) \<Rightarrow> Some x))"

text \<open>The rule after a turn of the loop that raised nothing.\<close>

definition entry_effect :: "sync_env \<Rightarrow> rule_entry \<Rightarrow> Rule \<Rightarrow> Rule" where
  "entry_effect env c_rule rule =
     rule\<lparr>languages := languages rule \<union> set (entry_langs env c_rule),
          cwe := entry_cwe c_rule (cwe rule),
          owasp := entry_owasp c_rule (owasp rule),
          severity := Some (generate_severity (TOP40_CWE_SEVERITIES env)
                             (entry_cwe c_rule (cwe rule)))\<rparr>"

text \<open>The attributes that \<open>sync_db\<close> gives a rule at its creation only.\<close>

definition rule_core :: "Rule \<Rightarrow> nat \<times> string \<times> string \<times> RuleRepository option \<times> string" where
  "rule_core r = (rule_id r, title r, file_path r, repository r, category r)"

text \<open>
  \<open>store_extends U W\<close>: the table \<open>W\<close> has the rows of \<open>U\<close> at their places, with the
  attributes of their creation and at least their languages, and maybe more rows.
\<close>

definition store_extends :: "Rule list \<Rightarrow> Rule list \<Rightarrow> bool" where
  "store_extends U W \<longleftrightarrow>
     length U \<le> length W
     \<and> (\<forall>k < length U. rule_core (U ! k) = rule_core (W ! k)
            \<and> languages (U ! k) \<subseteq> languages (W ! k))"

text \<open>
  The relation between a first run and a second run of the same synchronization that
  starts where the first one ends (at \<open>Wf\<close>), after the same number of turns: \<open>U\<close> is
  the table of the first run and \<open>V\<close> that of the second.
\<close>

definition resync_rel :: "sync_env \<Rightarrow> Rule list \<Rightarrow> Rule list \<Rightarrow> Rule list \<Rightarrow> bool" where
  "resync_rel env Wf U V \<longleftrightarrow>
     length V = length Wf
     \<and> (\<forall>k < length Wf.
          rule_core (V ! k) = rule_core (Wf ! k)
        \<and> languages (V ! k) = languages (Wf ! k)
        \<and> (cwe (V ! k) = cwe (Wf ! k) \<or> (k < length U \<and> cwe (V ! k) = cwe (U ! k)))
        \<and> (owasp (V ! k) = owasp (Wf ! k) \<or> (k < length U \<and> owasp (V ! k) = owasp (U ! k)))
        \<and> (Rule.severity (V ! k) = Rule.severity (Wf ! k)
           \<or> (k < length U
              \<and> Rule.severity (V ! k)
                  = Some (generate_severity (TOP40_CWE_SEVERITIES env) (cwe (V ! k)))
              \<and> Rule.severity (U ! k)
                  = Some (generate_severity (TOP40_CWE_SEVERITIES env) (cwe (U ! k))))))"


section \<open>Example values\<close>

definition example_lines_count :: "int \<Rightarrow> ProjectLinesCount" where
  "example_lines_count n =
     \<lparr>language_lines_counts = [], total_file_count = 1, total_line_count = n,
      total_blank_count = 0, total_comment_count = 0, total_code_count = n,
      total_complexity_count = 0\<rparr>"

definition example_analysis :: "severity list \<Rightarrow> severity list \<Rightarrow> unit Analysis" where
  "example_analysis vs ds =
     \<lparr>vulnerabilities = map (\<lambda>s. \<lparr>Vulnerability.severity = s, occurences = [()]\<rparr>) vs,
      vulnerable_dependencies = map (\<lambda>s. \<lparr>VulnerableDependency.severity = s\<rparr>) ds\<rparr>"

definition example_project ::
  "nat \<Rightarrow> string \<Rightarrow> unit Analysis option \<Rightarrow> ProjectLinesCount option \<Rightarrow> unit Project" where
  "example_project i n a lc =
     \<lparr>project_id = i, Project.name = n, analysis = a, project_lines_count = lc\<rparr>"

definition example_language :: "string \<Rightarrow> int \<Rightarrow> LanguageLinesCount" where
  "example_language l n =
     \<lparr>language = JStr l, file_count = 1, line_count = n, blank_count = 0,
      comment_count = 0, code_count = n, complexity_count = 0\<rparr>"

definition example_counts :: "LanguageLinesCount list \<Rightarrow> ProjectLinesCount" where
  "example_counts ls =
     \<lparr>language_lines_counts = ls, total_file_count = int (length ls),
      total_line_count = sum_list (map line_count ls), total_blank_count = 0,
      total_comment_count = 0, total_code_count = sum_list (map code_count ls),
      total_complexity_count = 0\<rparr>"

definition example_scc_entry :: "string \<Rightarrow> int \<Rightarrow> int \<Rightarrow> scc_entry" where
  "example_scc_entry l files code =
     [''Name'' \<mapsto> JStr l, ''Count'' \<mapsto> JInt files, ''Lines'' \<mapsto> JInt (code + 7),
      ''Blank'' \<mapsto> JInt 3, ''Comment'' \<mapsto> JInt 4, ''Code'' \<mapsto> JInt code,
      ''Complexity'' \<mapsto> JInt 2]"

definition example_user :: "string \<Rightarrow> nat \<Rightarrow> nat User" where
  "example_user n r = \<lparr>username = n, role = r\<rparr>"

definition example_teams :: "(nat, unit) Team list" where
  "example_teams =
     [\<lparr>members = [example_user ''bob'' 0],
       projects = [example_project 2 ''app'' None None]\<rparr>]"

definition example_top40 :: "string \<rightharpoonup> severity" where
  "example_top40 = [''CWE-79'' \<mapsto> SEVERITY_HIGH, ''CWE-89'' \<mapsto> SEVERITY_CRITICAL]"

definition example_env :: sync_env where
  "example_env =
     \<lparr>RULES_PATH = ''data/rules/'', TOP40_CWE_SEVERITIES = example_top40,
      supported_languages =
        [\<lparr>SupportedLanguage.name = ''Python''\<rparr>, \<lparr>SupportedLanguage.name = ''Go''\<rparr>],
      rule_repositories = [\<lparr>RuleRepository.name = ''semgrep''\<rparr>]\<rparr>"

definition example_entry :: "string \<Rightarrow> string \<Rightarrow> rule_entry" where
  "example_entry i c =
     \<lparr>entry_id = Some i, entry_languages = Some [''python''],
      entry_metadata =
        Some \<lparr>metadata_cwe = Some c, metadata_owasp = Some (OwaspList [''A7'', ''A3''])\<rparr>\<rparr>"

definition example_file :: "string \<Rightarrow> rule_file" where
  "example_file c =
     (''data/rules/semgrep/python/lang/xss.yaml'',
      Inr (YMapping (Some [example_entry ''xss'' c])))"

definition example_broken_file :: rule_file where
  "example_broken_file = (''data/rules/semgrep/python/lang/broken.yaml'', Inl YAMLError)"

definition example_rule :: "string \<Rightarrow> severity \<Rightarrow> SupportedLanguage set \<Rightarrow> Rule" where
  "example_rule c s ls =
     \<lparr>rule_id = 1, title = ''xss'', file_path = ''semgrep/python/lang/xss.yaml'',
      repository = Some \<lparr>RuleRepository.name = ''semgrep''\<rparr>, category = ''python.lang'',
      cwe = Some c, owasp = Some ''A7'', severity = Some s, languages = ls\<rparr>"

definition example_db :: "Rule list \<Rightarrow> rule_db" where
  "example_db rules = \<lparr>committed = rules, session = rules\<rparr>"


section \<open>Properties of the project utilities\<close>

subsection \<open>Occurrence count\<close>

lemma count_occurences_loop_sum:
  "count_occurences_loop vs acc = acc + (\<Sum>v\<leftarrow>vs. int (length (occurences v)))"
  by (induction vs arbitrary: acc) simp_all

text \<open>
  C10: \<open>count_occurences\<close> is 0 for a project without analysis, and otherwise the sum,
  over the vulnerabilities of the analysis, of the number of occurrence records of each.
  The function is total and returns a number only: it cannot fail or change the project.
\<close>

theorem count_occurences_sum:
  "count_occurences project =
     (case analysis project of
        None \<Rightarrow> 0
      | Some a \<Rightarrow> (\<Sum>v\<leftarrow>vulnerabilities a. int (length (occurences v))))"
  by (simp add: count_occurences_def count_occurences_loop_sum split: option.split)

subsection \<open>Risk level\<close>

lemma has_vuln_with_severity_loop_iff:
  "has_vuln_with_severity_loop vs s \<longleftrightarrow> s \<in> set (map Vulnerability.severity vs)"
  by (induction vs) auto

lemma has_vuln_dep_with_severity_loop_iff:
  "has_vuln_dep_with_severity_loop ds s \<longleftrightarrow> s \<in> set (map VulnerableDependency.severity ds)"
  by (induction ds) auto

lemma base_loop_spec: "base_loop s2rl_base a 0 = spec_base_score a"
  by (simp add: s2rl_base_def spec_base_score_def spec_highest_tier_def
      has_vuln_with_severity_def has_vuln_with_severity_loop_iff)

lemma adjust_loop_sum: "adjust_loop s2rl_adjust a r = r + summed_increments a"
  by (simp add: s2rl_adjust_def summed_increments_def increment_if_present_def
      has_vuln_dep_with_severity_def has_vuln_dep_with_severity_loop_iff)

text \<open>
  C4: the risk level is 0 when the project has no analysis, when it has no recorded
  line count, and when its total code count is not strictly positive, whatever the
  analysis holds. The function is total: these cases return 0 and raise nothing.
\<close>

theorem calculate_risk_level_neutral:
  assumes "analysis project = None \<or> project_lines_count project = None
     \<or> (\<exists>lc. project_lines_count project = Some lc \<and> total_code_count lc \<le> 0)"
  shows "calculate_risk_level project = 0"
  using assms by (auto simp: calculate_risk_level_def split: option.split)

theorem calculate_risk_level_neutral_witness:
  "calculate_risk_level
     (example_project 1 ''demo'' None (Some (example_lines_count 10))) = 0
   \<and> calculate_risk_level
     (example_project 1 ''demo''
        (Some (example_analysis [SEVERITY_CRITICAL] [SEVERITY_HIGH])) None) = 0
   \<and> calculate_risk_level
     (example_project 1 ''demo''
        (Some (example_analysis [SEVERITY_CRITICAL] [SEVERITY_HIGH]))
        (Some (example_lines_count 0))) = 0"
proof -
  have a: "calculate_risk_level
     (example_project 1 ''demo'' None (Some (example_lines_count 10))) = 0"
    by (rule calculate_risk_level_neutral) (simp add: example_project_def)
  have b: "calculate_risk_level
     (example_project 1 ''demo''
        (Some (example_analysis [SEVERITY_CRITICAL] [SEVERITY_HIGH])) None) = 0"
    by (rule calculate_risk_level_neutral) (simp add: example_project_def)
  have c: "calculate_risk_level
     (example_project 1 ''demo''
        (Some (example_analysis [SEVERITY_CRITICAL] [SEVERITY_HIGH]))
        (Some (example_lines_count 0))) = 0"
    by (rule calculate_risk_level_neutral)
       (simp add: example_project_def example_lines_count_def)
  from a b c show ?thesis by simp
qed

text \<open>
  C1, as the code has it: with an analysis and a strictly positive total code count, the
  risk level is the base value of the highest severity tier among the vulnerabilities
  (75, 60, 40, 20; 0 without vulnerabilities) plus the increments (10, 8, 5, 2) of
  every severity tier that occurs among the vulnerable dependencies.
\<close>

theorem calculate_risk_level_sum:
  assumes "analysis project = Some a"
    and "project_lines_count project = Some lc"
    and "0 < total_code_count lc"
  shows "calculate_risk_level project = spec_base_score a + summed_increments a"
  using assms by (simp add: calculate_risk_level_def base_loop_spec adjust_loop_sum)

theorem calculate_risk_level_sum_witness:
  "calculate_risk_level
     (example_project 1 ''demo''
        (Some (example_analysis [SEVERITY_LOW, SEVERITY_CRITICAL] [SEVERITY_HIGH]))
        (Some (example_lines_count 10))) = 83"
proof -
  let ?a = "example_analysis [SEVERITY_LOW, SEVERITY_CRITICAL] [SEVERITY_HIGH]"
  have "calculate_risk_level
      (example_project 1 ''demo'' (Some ?a) (Some (example_lines_count 10)))
      = spec_base_score ?a + summed_increments ?a"
    by (rule calculate_risk_level_sum [where lc = "example_lines_count 10"])
       (simp_all add: example_project_def example_lines_count_def)
  also have "\<dots> = 83"
    by (simp add: spec_base_score_def spec_highest_tier_def summed_increments_def
        increment_if_present_def example_analysis_def)
  finally show ?thesis .
qed

text \<open>
  C1 as stated fails: with one CRITICAL vulnerability and vulnerable dependencies of the
  tiers CRITICAL and HIGH the code returns 75 + 10 + 8 = 93, where a single increment
  would give 85.
\<close>

theorem single_increment_counterexample:
  "calculate_risk_level
     (example_project 1 ''demo''
        (Some (example_analysis [SEVERITY_CRITICAL] [SEVERITY_CRITICAL, SEVERITY_HIGH]))
        (Some (example_lines_count 10))) = 93
   \<and> spec_base_score (example_analysis [SEVERITY_CRITICAL] [SEVERITY_CRITICAL, SEVERITY_HIGH])
     + spec_single_increment
         (example_analysis [SEVERITY_CRITICAL] [SEVERITY_CRITICAL, SEVERITY_HIGH])
     = 85"
  by (simp add: calculate_risk_level_def example_project_def example_lines_count_def
      example_analysis_def s2rl_base_def s2rl_adjust_def has_vuln_with_severity_def
      has_vuln_dep_with_severity_def spec_base_score_def spec_single_increment_def
      spec_highest_tier_def)

subsection \<open>Line counts\<close>

lemma load_entry_Inr:
  assumes "load_entry c plc = Inr plc'"
  shows "\<exists>l. entry_of l c \<and> language_lines_counts plc' = language_lines_counts plc @ [l]
     \<and> total_file_count plc' = total_file_count plc + file_count l
     \<and> total_line_count plc' = total_line_count plc + line_count l
     \<and> total_blank_count plc' = total_blank_count plc + blank_count l
     \<and> total_comment_count plc' = total_comment_count plc + comment_count l
     \<and> total_code_count plc' = total_code_count plc + code_count l
     \<and> total_complexity_count plc' = total_complexity_count plc + complexity_count l"
  using assms
  unfolding load_entry_def bind_result_def getitem_def int_operand_def entry_of_def
  by (auto split: option.splits sum.splits jvalue.splits)

lemma load_entry_well_formed:
  assumes "scc_well_formed c"
  shows "\<exists>plc'. load_entry c plc = Inr plc'"
  using assms
  unfolding load_entry_def bind_result_def getitem_def int_operand_def
    scc_well_formed_def counter_keys_def
  by auto

lemma load_loop_Inr:
  assumes "load_loop cs plc = Inr plc'"
  shows "\<exists>ls. list_all2 entry_of ls cs
     \<and> language_lines_counts plc' = language_lines_counts plc @ ls
     \<and> total_file_count plc' = total_file_count plc + sum_list (map file_count ls)
     \<and> total_line_count plc' = total_line_count plc + sum_list (map line_count ls)
     \<and> total_blank_count plc' = total_blank_count plc + sum_list (map blank_count ls)
     \<and> total_comment_count plc' = total_comment_count plc + sum_list (map comment_count ls)
     \<and> total_code_count plc' = total_code_count plc + sum_list (map code_count ls)
     \<and> total_complexity_count plc'
         = total_complexity_count plc + sum_list (map complexity_count ls)"
  using assms
proof (induction cs arbitrary: plc)
  case Nil
  then show ?case by simp
next
  case (Cons c cs)
  from Cons.prems obtain plc1 where 1: "load_entry c plc = Inr plc1"
    and 2: "load_loop cs plc1 = Inr plc'"
    by (auto split: sum.splits)
  from load_entry_Inr [OF 1] obtain l where l: "entry_of l c"
    "language_lines_counts plc1 = language_lines_counts plc @ [l]"
    "total_file_count plc1 = total_file_count plc + file_count l"
    "total_line_count plc1 = total_line_count plc + line_count l"
    "total_blank_count plc1 = total_blank_count plc + blank_count l"
    "total_comment_count plc1 = total_comment_count plc + comment_count l"
    "total_code_count plc1 = total_code_count plc + code_count l"
    "total_complexity_count plc1 = total_complexity_count plc + complexity_count l"
    by blast
  from Cons.IH [OF 2] obtain ls where ls: "list_all2 entry_of ls cs"
    "language_lines_counts plc' = language_lines_counts plc1 @ ls"
    "total_file_count plc' = total_file_count plc1 + sum_list (map file_count ls)"
    "total_line_count plc' = total_line_count plc1 + sum_list (map line_count ls)"
    "total_blank_count plc' = total_blank_count plc1 + sum_list (map blank_count ls)"
    "total_comment_count plc' = total_comment_count plc1 + sum_list (map comment_count ls)"
    "total_code_count plc' = total_code_count plc1 + sum_list (map code_count ls)"
    "total_complexity_count plc'
       = total_complexity_count plc1 + sum_list (map complexity_count ls)"
    by blast
  show ?case
    by (rule exI [of _ "l # ls"]) (simp add: l ls)
qed

lemma load_loop_well_formed:
  assumes "list_all scc_well_formed cs"
  shows "\<exists>plc'. load_loop cs plc = Inr plc'"
  using assms
proof (induction cs arbitrary: plc)
  case Nil
  then show ?case by simp
next
  case (Cons c cs)
  from Cons.prems have "scc_well_formed c" by simp
  from load_entry_well_formed [OF this] obtain plc1 where "load_entry c plc = Inr plc1"
    by blast
  moreover from Cons.prems have "list_all scc_well_formed cs" by simp
  ultimately show ?case using Cons.IH by simp
qed

text \<open>
  C6: a tool output whose elements follow the tool's contract is aggregated without
  error, and whenever the aggregator returns a ProjectLinesCount, each of its six totals
  is the sum of that counter over its LanguageLinesCount entries, and these entries
  stand in the order of the tool output, one for each element, with the element's values.
\<close>

theorem load_project_lines_count_totals:
  "(list_all scc_well_formed scc_result \<longrightarrow>
      (\<exists>plc. load_project_lines_count scc_result = Inr plc))
   \<and> (\<forall>plc. load_project_lines_count scc_result = Inr plc \<longrightarrow>
        totals_are_sums plc \<and> list_all2 entry_of (language_lines_counts plc) scc_result)"
proof (intro conjI impI allI)
  assume "list_all scc_well_formed scc_result"
  then show "\<exists>plc. load_project_lines_count scc_result = Inr plc"
    unfolding load_project_lines_count_def by (rule load_loop_well_formed)
next
  fix plc
  assume "load_project_lines_count scc_result = Inr plc"
  from load_loop_Inr [OF this [unfolded load_project_lines_count_def]]
  show "totals_are_sums plc" by (auto simp: totals_are_sums_def)
next
  fix plc
  assume "load_project_lines_count scc_result = Inr plc"
  from load_loop_Inr [OF this [unfolded load_project_lines_count_def]]
  show "list_all2 entry_of (language_lines_counts plc) scc_result" by auto
qed

theorem load_project_lines_count_totals_witness:
  "list_all scc_well_formed [example_scc_entry ''Python'' 3 120, example_scc_entry ''Go'' 1 40]
   \<and> (\<exists>plc. load_project_lines_count
          [example_scc_entry ''Python'' 3 120, example_scc_entry ''Go'' 1 40] = Inr plc
        \<and> totals_are_sums plc \<and> total_code_count plc = 160 \<and> total_file_count plc = 4
        \<and> map language (language_lines_counts plc) = [JStr ''Python'', JStr ''Go''])"
proof -
  let ?out = "[example_scc_entry ''Python'' 3 120, example_scc_entry ''Go'' 1 40]"
  have wf: "list_all scc_well_formed ?out"
    by (simp add: scc_well_formed_def counter_keys_def example_scc_entry_def)
  with load_project_lines_count_totals [of ?out]
  obtain plc where plc: "load_project_lines_count ?out = Inr plc" by blast
  with load_project_lines_count_totals [of ?out]
  have sums: "totals_are_sums plc" by blast
  from plc have "total_code_count plc = 160 \<and> total_file_count plc = 4
      \<and> map language (language_lines_counts plc) = [JStr ''Python'', JStr ''Go'']"
    by (auto simp: load_project_lines_count_def load_entry_def bind_result_def getitem_def
        int_operand_def example_scc_entry_def)
  with wf plc sums show ?thesis by simp
qed

subsection \<open>Top languages\<close>

lemma sorted_reverse_mset: "mset (sorted_reverse key xs) = mset xs"
  by (simp add: sorted_reverse_def)

lemma sorted_reverse_descending:
  "sorted_wrt (\<lambda>a b. key a \<ge> key b) (sorted_reverse key xs)"
proof -
  have "sorted (map (\<lambda>x. - key x) (sorted_reverse key xs))"
    by (simp add: sorted_reverse_def)
  then show ?thesis by (simp add: sorted_map)
qed

lemma sorted_reverse_stable:
  "filter (\<lambda>x. key x = k) (sorted_reverse key xs) = filter (\<lambda>x. key x = k) xs"
proof -
  have "filter (\<lambda>x. - key x = - k) (sort_key (\<lambda>x. - key x) xs)
      = filter (\<lambda>x. - key x = - k) xs"
    by (rule sort_key_stable)
  then show ?thesis by (simp add: sorted_reverse_def)
qed

text \<open>
  C8: \<open>top_number\<close> is the number of entries to return, a number \<open>n \<ge> 0\<close>. The
  result has at most \<open>top_number\<close> entries and is sorted by code count in descending
  order; it is the first \<open>top_number\<close> entries of a rearrangement \<open>S\<close> of the
  language counts that is sorted in descending order and keeps entries of equal code
  count in their original order (a stable sort). The function returns a new list; the
  collection is an argument that is only read.
\<close>

theorem top_language_lines_counts_sorted:
  assumes "0 \<le> top_number"
  shows "int (length (top_language_lines_counts project_lc top_number)) \<le> top_number
    \<and> sorted_wrt (\<lambda>a b. code_count a \<ge> code_count b)
         (top_language_lines_counts project_lc top_number)
    \<and> (\<exists>S. mset S = mset (language_lines_counts project_lc)
          \<and> sorted_wrt (\<lambda>a b. code_count a \<ge> code_count b) S
          \<and> (\<forall>k. filter (\<lambda>x. code_count x = k) S
                 = filter (\<lambda>x. code_count x = k) (language_lines_counts project_lc))
          \<and> top_language_lines_counts project_lc top_number = take (nat top_number) S)"
proof -
  let ?S = "sorted_reverse code_count (language_lines_counts project_lc)"
  have r: "top_language_lines_counts project_lc top_number = take (nat top_number) ?S"
    using assms by (simp add: top_language_lines_counts_def slice_to_def)
  have 1: "int (length (top_language_lines_counts project_lc top_number)) \<le> top_number"
    using assms by (simp add: r)
  have 2: "sorted_wrt (\<lambda>a b. code_count a \<ge> code_count b)
         (top_language_lines_counts project_lc top_number)"
    unfolding r by (rule sorted_wrt_take) (rule sorted_reverse_descending)
  have 3: "mset ?S = mset (language_lines_counts project_lc)"
    by (rule sorted_reverse_mset)
  have 4: "\<forall>k. filter (\<lambda>x. code_count x = k) ?S
      = filter (\<lambda>x. code_count x = k) (language_lines_counts project_lc)"
    by (simp add: sorted_reverse_stable)
  from 1 2 3 4 r sorted_reverse_descending [of code_count] show ?thesis by blast
qed

theorem top_language_lines_counts_sorted_witness:
  "(0::int) \<le> 2
   \<and> top_language_lines_counts
       (example_counts [example_language ''C'' 5, example_language ''Go'' 9,
          example_language ''Java'' 5, example_language ''Rust'' 9]) 2
     = [example_language ''Go'' 9, example_language ''Rust'' 9]
   \<and> int (length (top_language_lines_counts
       (example_counts [example_language ''C'' 5, example_language ''Go'' 9,
          example_language ''Java'' 5, example_language ''Rust'' 9]) 2)) \<le> 2"
proof -
  have h: "(0::int) \<le> 2" by simp
  have v: "top_language_lines_counts
       (example_counts [example_language ''C'' 5, example_language ''Go'' 9,
          example_language ''Java'' 5, example_language ''Rust'' 9]) 2
     = [example_language ''Go'' 9, example_language ''Rust'' 9]"
    by (simp add: top_language_lines_counts_def slice_to_def sorted_reverse_def
        example_counts_def example_language_def)
  from top_language_lines_counts_sorted [OF h] h v show ?thesis by blast
qed

subsection \<open>Access\<close>

lemma has_access_iff_team:
  "has_access ROLE_ADMIN teams current_user project \<longleftrightarrow>
     role current_user = ROLE_ADMIN
     \<or> (\<exists>t \<in> set teams.
           (\<exists>m \<in> set (members t). username m = username current_user)
         \<and> (\<exists>p \<in> set (projects t). Project.name p = Project.name project))"
  by (auto simp: has_access_def Let_def)

lemma has_access_unique_names:
  assumes "\<forall>t \<in> set teams. \<forall>m \<in> set (members t).
      username m = username current_user \<longrightarrow> m = current_user"
    and "\<forall>t \<in> set teams. \<forall>p \<in> set (projects t). Project.name p = Project.name project \<longrightarrow> p = project"
  shows "has_access ROLE_ADMIN teams current_user project
     = spec_has_access ROLE_ADMIN teams current_user project"
proof (cases "role current_user = ROLE_ADMIN")
  case True
  then show ?thesis by (simp add: has_access_def spec_has_access_def)
next
  case False
  have "(\<exists>t \<in> set teams.
           (\<exists>m \<in> set (members t). username m = username current_user)
         \<and> (\<exists>p \<in> set (projects t). Project.name p = Project.name project))
      \<longleftrightarrow> (\<exists>t \<in> set teams. current_user \<in> set (members t) \<and> project \<in> set (projects t))"
    using assms by blast
  moreover have "spec_has_access ROLE_ADMIN teams current_user project
      \<longleftrightarrow> (\<exists>t \<in> set teams. current_user \<in> set (members t) \<and> project \<in> set (projects t))"
    using False by (auto simp: spec_has_access_def)
  ultimately show ?thesis using False by (simp add: has_access_iff_team)
qed

text \<open>
  C9: an administrator has access. For any other user the code selects the teams by the
  username of the user and by the name of the project: the user has access if and only
  if some team has a member of this username and a project of this name. Usernames and
  project names are the keys by which the code finds users and projects; where they
  identify the members and the projects of the teams, access is as the specification
  words it: the administrator has it, and any other user if and only if the teams of
  which the user is a member and the teams to which the project belongs share a team.
\<close>

theorem has_access_by_names:
  "(has_access ROLE_ADMIN teams current_user project \<longleftrightarrow>
      role current_user = ROLE_ADMIN
      \<or> (\<exists>t \<in> set teams.
            (\<exists>m \<in> set (members t). username m = username current_user)
          \<and> (\<exists>p \<in> set (projects t). Project.name p = Project.name project)))
   \<and> ((\<forall>t \<in> set teams. \<forall>m \<in> set (members t).
           username m = username current_user \<longrightarrow> m = current_user)
        \<and> (\<forall>t \<in> set teams. \<forall>p \<in> set (projects t).
           Project.name p = Project.name project \<longrightarrow> p = project)
       \<longrightarrow> has_access ROLE_ADMIN teams current_user project
           = spec_has_access ROLE_ADMIN teams current_user project)"
  using has_access_iff_team [of ROLE_ADMIN teams current_user project]
    has_access_unique_names [of teams current_user project ROLE_ADMIN]
  by blast

theorem has_access_by_names_witness:
  "has_access 1 example_teams (example_user ''bob'' 0) (example_project 2 ''app'' None None)
   \<and> spec_has_access 1 example_teams (example_user ''bob'' 0)
         (example_project 2 ''app'' None None)
   \<and> \<not> has_access 1 example_teams (example_user ''eve'' 0)
         (example_project 2 ''app'' None None)
   \<and> has_access 1 example_teams (example_user ''eve'' 1)
         (example_project 2 ''app'' None None)"
proof -
  let ?p = "example_project 2 ''app'' None None"
  have u: "(\<forall>t \<in> set example_teams. \<forall>m \<in> set (members t).
           username m = username (example_user ''bob'' 0) \<longrightarrow> m = example_user ''bob'' 0)
        \<and> (\<forall>t \<in> set example_teams. \<forall>p \<in> set (projects t).
           Project.name p = Project.name ?p \<longrightarrow> p = ?p)"
    by (simp add: example_teams_def example_user_def example_project_def)
  have a: "has_access 1 example_teams (example_user ''bob'' 0) ?p"
    by (simp add: has_access_by_names example_teams_def example_user_def example_project_def)
  from u has_access_by_names [of 1 example_teams "example_user ''bob'' 0" ?p]
  have "has_access 1 example_teams (example_user ''bob'' 0) ?p
      = spec_has_access 1 example_teams (example_user ''bob'' 0) ?p" by blast
  with a have b: "spec_has_access 1 example_teams (example_user ''bob'' 0) ?p" by simp
  have c: "\<not> has_access 1 example_teams (example_user ''eve'' 0) ?p"
    "has_access 1 example_teams (example_user ''eve'' 1) ?p"
    by (simp_all add: has_access_by_names example_teams_def example_user_def example_project_def)
  from a b c show ?thesis by simp
qed


section \<open>Properties of the rule utilities\<close>

subsection \<open>Severity from a CWE name\<close>

lemma upper_char_cwe:
  "upper_char (CHR ''C'') = CHR ''C''" "upper_char (CHR ''c'') = CHR ''C''"
  "upper_char (CHR ''W'') = CHR ''W''" "upper_char (CHR ''w'') = CHR ''W''"
  "upper_char (CHR ''E'') = CHR ''E''" "upper_char (CHR ''e'') = CHR ''E''"
  "upper_char (CHR ''-'') = CHR ''-''"
  by (simp_all add: upper_char_def lowercase_letters_def uppercase_letters_def)

lemma upper_char_digit: "is_digit c \<Longrightarrow> upper_char c = c"
proof -
  have "list_all (\<lambda>c. upper_char c = c) ''0123456789''"
    by (simp add: upper_char_def lowercase_letters_def uppercase_letters_def)
  then show "is_digit c \<Longrightarrow> upper_char c = c"
    unfolding is_digit_def list_all_iff by blast
qed

lemma map_upper_digits: "list_all is_digit ds \<Longrightarrow> map upper_char ds = ds"
  by (induction ds) (simp_all add: upper_char_digit)

lemma takeWhile_digits: "list_all is_digit (takeWhile is_digit s)"
  by (induction s) simp_all

lemma match_cwe_at_start_Some:
  assumes "cwe_match_at s 0"
  shows "\<exists>m. match_cwe_at_start s = Some m
     \<and> map upper_char m = ''CWE-'' @ takeWhile is_digit (drop 4 s)"
proof -
  from assms obtain c1 c2 c3 c4 d rest where s: "s = c1 # c2 # c3 # c4 # d # rest"
    by (cases s rule: match_cwe_at_start.cases) (simp_all add: cwe_match_at_def)
  from assms have c: "(c1 = CHR ''C'' \<or> c1 = CHR ''c'')" "(c2 = CHR ''W'' \<or> c2 = CHR ''w'')"
    "(c3 = CHR ''E'' \<or> c3 = CHR ''e'')" "c4 = CHR ''-''" "is_digit d"
    by (simp_all add: cwe_match_at_def s)
  have "map upper_char (takeWhile is_digit (d # rest)) = takeWhile is_digit (d # rest)"
    by (rule map_upper_digits) (rule takeWhile_digits)
  with c show ?thesis
    by (auto simp: s upper_char_cwe)
qed

lemma match_cwe_at_start_None:
  assumes "\<not> cwe_match_at s 0"
  shows "match_cwe_at_start s = None"
  using assms by (cases s rule: match_cwe_at_start.cases) (auto simp: cwe_match_at_def)

lemma cwe_match_at_Cons: "cwe_match_at (c # cs) (Suc i) = cwe_match_at cs i"
  by (simp add: cwe_match_at_def add.commute)

lemma re_search_cwe_None:
  "(\<forall>i. \<not> cwe_match_at s i) \<Longrightarrow> re_search_cwe s = None"
proof (induction s)
  case Nil
  then show ?case by simp
next
  case (Cons c cs)
  have "\<forall>i. \<not> cwe_match_at cs i"
    using Cons.prems cwe_match_at_Cons by blast
  then have "re_search_cwe cs = None" by (rule Cons.IH)
  moreover have "match_cwe_at_start (c # cs) = None"
    using Cons.prems by (intro match_cwe_at_start_None) blast
  ultimately show ?case by simp
qed

lemma re_search_cwe_leftmost:
  assumes "cwe_match_at s i" and "\<forall>j<i. \<not> cwe_match_at s j"
  shows "\<exists>m. re_search_cwe s = Some m
     \<and> map upper_char m = ''CWE-'' @ takeWhile is_digit (drop (i + 4) s)"
  using assms
proof (induction s arbitrary: i)
  case Nil
  then show ?case by (simp add: cwe_match_at_def)
next
  case (Cons c cs)
  show ?case
  proof (cases i)
    case 0
    with Cons.prems have "cwe_match_at (c # cs) 0" by simp
    from match_cwe_at_start_Some [OF this] 0 show ?thesis by auto
  next
    case (Suc k)
    with Cons.prems have k: "cwe_match_at cs k"
      by (simp add: cwe_match_at_Cons)
    have "\<forall>j<k. \<not> cwe_match_at cs j"
    proof (intro allI impI)
      fix j assume "j < k"
      then have "Suc j < i" using Suc by simp
      with Cons.prems have "\<not> cwe_match_at (c # cs) (Suc j)" by blast
      then show "\<not> cwe_match_at cs j" by (simp add: cwe_match_at_Cons)
    qed
    from Cons.IH [OF k this] obtain m where m: "re_search_cwe cs = Some m"
      "map upper_char m = ''CWE-'' @ takeWhile is_digit (drop (k + 4) cs)" by blast
    have "\<not> cwe_match_at (c # cs) 0" using Cons.prems Suc by blast
    then have "match_cwe_at_start (c # cs) = None" by (rule match_cwe_at_start_None)
    moreover have "i + 4 = Suc (k + 4)" using Suc by simp
    then have "drop (i + 4) (c # cs) = drop (k + 4) cs" by (simp only: drop_Suc_Cons)
    ultimately show ?thesis using m by simp
  qed
qed

text \<open>
  C5: \<open>generate_severity\<close> returns LOW for an absent input and for a string in which
  \<open>CWE-\<close> followed by a digit stands nowhere (in either case of the letters). Where
  the leftmost such place is \<open>i\<close>, the extracted id is \<open>CWE-\<close> with the digits that
  follow, and the result is the tier of the table for this id if it has one, MEDIUM
  otherwise. The function computes a value from its arguments only.
\<close>

theorem generate_severity_cases:
  "generate_severity top40 None = SEVERITY_LOW
   \<and> ((\<forall>i. \<not> cwe_match_at s i) \<longrightarrow>
        generate_severity top40 (Some s) = SEVERITY_LOW)
   \<and> (cwe_match_at s i \<and> (\<forall>j<i. \<not> cwe_match_at s j) \<longrightarrow>
        generate_severity top40 (Some s) =
          (case top40 (''CWE-'' @ takeWhile is_digit (drop (i + 4) s)) of
             Some tier \<Rightarrow> tier
           | None \<Rightarrow> SEVERITY_MEDIUM))"
proof (intro conjI impI)
  show "generate_severity top40 None = SEVERITY_LOW"
    by (simp add: generate_severity_def)
next
  assume "\<forall>i. \<not> cwe_match_at s i"
  then show "generate_severity top40 (Some s) = SEVERITY_LOW"
    by (simp add: generate_severity_def re_search_cwe_None)
next
  assume "cwe_match_at s i \<and> (\<forall>j<i. \<not> cwe_match_at s j)"
  then obtain m where "re_search_cwe s = Some m"
    "map upper_char m = ''CWE-'' @ takeWhile is_digit (drop (i + 4) s)"
    using re_search_cwe_leftmost by blast
  then show "generate_severity top40 (Some s) =
          (case top40 (''CWE-'' @ takeWhile is_digit (drop (i + 4) s)) of
             Some tier \<Rightarrow> tier
           | None \<Rightarrow> SEVERITY_MEDIUM)"
    by (simp add: generate_severity_def)
qed

lemma cwe_match_at_bound: "cwe_match_at s i \<Longrightarrow> i < length s - 4"
  unfolding cwe_match_at_def by linarith

theorem generate_severity_cases_witness:
  "generate_severity example_top40 (Some ''random text'') = SEVERITY_LOW
   \<and> generate_severity example_top40 (Some ''see cwe-79: XSS'') = SEVERITY_HIGH
   \<and> generate_severity example_top40 (Some ''CWE-200: Exposure'') = SEVERITY_MEDIUM"
proof -
  have no: "\<forall>i. \<not> cwe_match_at ''random text'' i"
  proof
    fix i
    show "\<not> cwe_match_at ''random text'' i"
    proof
      assume m: "cwe_match_at ''random text'' i"
      then have "i < 7" using cwe_match_at_bound [OF m] by simp
      then have "i \<in> {0, 1, 2, 3, 4, 5, 6}" by auto
      with m show False by (auto simp: cwe_match_at_def)
    qed
  qed
  have at4: "cwe_match_at ''see cwe-79: XSS'' 4 \<and> (\<forall>j<4. \<not> cwe_match_at ''see cwe-79: XSS'' j)"
  proof
    show "cwe_match_at ''see cwe-79: XSS'' 4" by (simp add: cwe_match_at_def is_digit_def)
    show "\<forall>j<4. \<not> cwe_match_at ''see cwe-79: XSS'' j"
    proof (intro allI impI)
      fix j :: nat assume "j < 4"
      then have "j \<in> {0, 1, 2, 3}" by auto
      then show "\<not> cwe_match_at ''see cwe-79: XSS'' j" by (auto simp: cwe_match_at_def)
    qed
  qed
  have at0: "cwe_match_at ''CWE-200: Exposure'' 0 \<and> (\<forall>j<0. \<not> cwe_match_at ''CWE-200: Exposure'' j)"
    by (simp add: cwe_match_at_def is_digit_def)
  from no generate_severity_cases [of example_top40 "''random text''"]
  have 1: "generate_severity example_top40 (Some ''random text'') = SEVERITY_LOW" by blast
  from at4 generate_severity_cases [of example_top40 "''see cwe-79: XSS''" 4]
  have "generate_severity example_top40 (Some ''see cwe-79: XSS'') =
      (case example_top40 (''CWE-'' @ takeWhile is_digit (drop (4 + 4) ''see cwe-79: XSS'')) of
         Some tier \<Rightarrow> tier | None \<Rightarrow> SEVERITY_MEDIUM)" by blast
  then have 2: "generate_severity example_top40 (Some ''see cwe-79: XSS'') = SEVERITY_HIGH"
    by (simp add: example_top40_def is_digit_def)
  from at0 generate_severity_cases [of example_top40 "''CWE-200: Exposure''" 0]
  have "generate_severity example_top40 (Some ''CWE-200: Exposure'') =
      (case example_top40 (''CWE-'' @ takeWhile is_digit (drop (0 + 4) ''CWE-200: Exposure'')) of
         Some tier \<Rightarrow> tier | None \<Rightarrow> SEVERITY_MEDIUM)" by blast
  then have 3: "generate_severity example_top40 (Some ''CWE-200: Exposure'') = SEVERITY_MEDIUM"
    by (simp add: example_top40_def is_digit_def)
  from 1 2 3 show ?thesis by simp
qed


subsection \<open>Synchronization of the rules\<close>

lemma first_index_None_iff: "first_index P xs = None \<longleftrightarrow> (\<forall>x \<in> set xs. \<not> P x)"
  by (induction xs) auto

lemma first_index_Some:
  "first_index P xs = Some i \<Longrightarrow> i < length xs \<and> P (xs ! i) \<and> (\<forall>j<i. \<not> P (xs ! j))"
proof (induction xs arbitrary: i)
  case Nil
  then show ?case by simp
next
  case (Cons x xs)
  show ?case
  proof (cases "P x")
    case True
    with Cons.prems show ?thesis by simp
  next
    case False
    with Cons.prems obtain i' where i': "first_index P xs = Some i'" "i = Suc i'"
      by auto
    from Cons.IH [OF i'(1)] False i'(2) show ?thesis
      by (auto simp: nth_Cons')  
  qed
qed

lemma first_index_SomeI:
  "i < length xs \<Longrightarrow> P (xs ! i) \<Longrightarrow> (\<forall>j<i. \<not> P (xs ! j)) \<Longrightarrow> first_index P xs = Some i"
proof (induction xs arbitrary: i)
  case Nil
  then show ?case by simp
next
  case (Cons x xs)
  show ?case
  proof (cases i)
    case 0
    with Cons.prems show ?thesis by simp
  next
    case (Suc i')
    with Cons.prems have "\<not> P x" by auto
    moreover have "first_index P xs = Some i'"
    proof (rule Cons.IH)
      show "i' < length xs" using Cons.prems Suc by simp
      show "P (xs ! i')" using Cons.prems Suc by simp
      show "\<forall>j<i'. \<not> P (xs ! j)"
      proof (intro allI impI)
        fix j assume "j < i'"
        then have "Suc j < i" using Suc by simp
        with Cons.prems have "\<not> P ((x # xs) ! Suc j)" by blast
        then show "\<not> P (xs ! j)" by simp
      qed
    qed
    ultimately show ?thesis using Suc by simp
  qed
qed

lemma set_severity_and_log_eq:
  "set_severity_and_log env r =
     ((if repository r = None then Some AttributeError else None),
      r\<lparr>severity := Some (generate_severity (TOP40_CWE_SEVERITIES env) (cwe r))\<rparr>)"
  by (simp add: set_severity_and_log_def Let_def split: option.split)

lemma update_rule_core:
  "update_rule env c_rule r = (e, r') \<Longrightarrow> rule_core r' = rule_core r"
  by (auto simp: update_rule_def set_severity_and_log_eq Let_def rule_core_def
      split: option.splits owasp_value.splits list.splits if_splits)

lemma update_rule_languages:
  "update_rule env c_rule r = (e, r') \<Longrightarrow> languages r' = languages r \<union> set (entry_langs env c_rule)"
  by (auto simp: update_rule_def set_severity_and_log_eq Let_def entry_langs_def
      split: option.splits owasp_value.splits list.splits if_splits)

lemma update_rule_None_iff:
  "update_rule env c_rule r = (None, r') \<longleftrightarrow>
     entry_owasp_ok c_rule \<and> repository r \<noteq> None \<and> r' = entry_effect env c_rule r"
  by (auto simp: update_rule_def set_severity_and_log_eq Let_def entry_owasp_ok_def
      entry_effect_def entry_langs_def entry_cwe_def entry_owasp_def
      split: option.splits owasp_value.splits list.splits if_splits)

lemma sync_rule_cases:
  assumes "sync_rule env p rn cat e U = (err, U')"
  shows "(\<exists>i r'. first_index (\<lambda>r. file_path r = p) U = Some i
            \<and> update_rule env e (U ! i) = (err, r') \<and> U' = U[i := r'])
       \<or> (first_index (\<lambda>r. file_path r = p) U = None
            \<and> entry_id e = None \<and> err = Some (KeyError ''id'') \<and> U' = U)
       \<or> (\<exists>t r'. first_index (\<lambda>r. file_path r = p) U = None \<and> entry_id e = Some t
            \<and> update_rule env e (new_rule env U t p rn cat) = (err, r') \<and> U' = U @ [r'])"
  using assms
  by (auto simp: sync_rule_def new_rule_def split: option.splits prod.splits)

lemma store_extends_refl: "store_extends U U"
  by (simp add: store_extends_def)

lemma store_extends_trans:
  assumes "store_extends U V" and "store_extends V W"
  shows "store_extends U W"
  unfolding store_extends_def
proof (intro conjI allI impI)
  show "length U \<le> length W" using assms by (simp add: store_extends_def)
next
  fix k assume k: "k < length U"
  then have kv: "k < length V" using assms(1) by (simp add: store_extends_def)
  from assms(1) k have 1: "rule_core (U ! k) = rule_core (V ! k)"
    "languages (U ! k) \<subseteq> languages (V ! k)"
    by (simp_all add: store_extends_def)
  from assms(2) kv have 2: "rule_core (V ! k) = rule_core (W ! k)"
    "languages (V ! k) \<subseteq> languages (W ! k)"
    by (simp_all add: store_extends_def)
  from 1 2 show "rule_core (U ! k) = rule_core (W ! k)" by simp
  from 1 2 show "languages (U ! k) \<subseteq> languages (W ! k)" by blast
qed

lemma store_extends_update:
  assumes "i < length U" and "rule_core r' = rule_core (U ! i)"
    and "languages (U ! i) \<subseteq> languages r'"
  shows "store_extends U (U[i := r'])"
  using assms by (auto simp: store_extends_def nth_list_update)

lemma store_extends_append: "store_extends U (U @ [r])"
  by (simp add: store_extends_def nth_append)

lemma sync_rule_extends:
  assumes "sync_rule env p rn cat e U = (err, U')"
  shows "store_extends U U'"
proof -
  from sync_rule_cases [OF assms] consider
    (upd) i r' where "first_index (\<lambda>r. file_path r = p) U = Some i"
      "update_rule env e (U ! i) = (err, r')" "U' = U[i := r']"
    | (err) "U' = U"
    | (new) r' where "U' = U @ [r']"
    by blast
  then show ?thesis
  proof cases
    case upd
    from first_index_Some [OF upd(1)] have "i < length U" by simp
    moreover from update_rule_core [OF upd(2)] have "rule_core r' = rule_core (U ! i)" .
    moreover from update_rule_languages [OF upd(2)]
    have "languages (U ! i) \<subseteq> languages r'" by simp
    ultimately show ?thesis unfolding upd(3) by (rule store_extends_update)
  next
    case err
    then show ?thesis by (simp add: store_extends_refl)
  next
    case new
    then show ?thesis by (simp add: store_extends_append)
  qed
qed

lemma rule_core_file_path: "rule_core r' = rule_core r \<Longrightarrow> file_path r' = file_path r"
  by (simp add: rule_core_def)

lemma sync_rule_paths_distinct:
  assumes "sync_rule env p rn cat e U = (err, U')" and "distinct (map file_path U)"
  shows "distinct (map file_path U')"
proof -
  from sync_rule_cases [OF assms(1)] consider
    (upd) i r' where "first_index (\<lambda>r. file_path r = p) U = Some i"
      "update_rule env e (U ! i) = (err, r')" "U' = U[i := r']"
    | (err) "U' = U"
    | (new) t r' where "first_index (\<lambda>r. file_path r = p) U = None"
      "update_rule env e (new_rule env U t p rn cat) = (err, r')" "U' = U @ [r']"
    by blast
  then show ?thesis
  proof cases
    case upd
    from first_index_Some [OF upd(1)] have i: "i < length U" by simp
    from update_rule_core [OF upd(2)] have "file_path r' = file_path (U ! i)"
      by (rule rule_core_file_path)
    then have "map file_path U' = map file_path U"
      using i by (simp add: upd(3) map_update list_update_same_conv)
    with assms(2) show ?thesis by simp
  next
    case err
    with assms(2) show ?thesis by simp
  next
    case new
    from update_rule_core [OF new(2)] have "file_path r' = p"
      by (simp add: rule_core_def new_rule_def)
    moreover from new(1) have "p \<notin> set (map file_path U)"
      by (auto simp: first_index_None_iff)
    ultimately show ?thesis using assms(2) by (simp add: new(3))
  qed
qed

lemma sync_rules_extends:
  "sync_rules env p rn cat es U = (err, U') \<Longrightarrow> store_extends U U'"
proof (induction es arbitrary: U)
  case Nil
  then show ?case by (simp add: store_extends_refl)
next
  case (Cons e es)
  obtain err1 U1 where 1: "sync_rule env p rn cat e U = (err1, U1)" by force
  have ext1: "store_extends U U1" using 1 by (rule sync_rule_extends)
  show ?case
  proof (cases err1)
    case None
    with Cons.prems 1 have "sync_rules env p rn cat es U1 = (err, U')" by simp
    from Cons.IH [OF this] ext1 show ?thesis by (blast intro: store_extends_trans)
  next
    case (Some x)
    with Cons.prems 1 have "U' = U1" by simp
    with ext1 show ?thesis by simp
  qed
qed

lemma sync_rules_paths_distinct:
  "sync_rules env p rn cat es U = (err, U') \<Longrightarrow> distinct (map file_path U)
    \<Longrightarrow> distinct (map file_path U')"
proof (induction es arbitrary: U)
  case Nil
  then show ?case by simp
next
  case (Cons e es)
  obtain err1 U1 where 1: "sync_rule env p rn cat e U = (err1, U1)" by force
  have d1: "distinct (map file_path U1)"
    using 1 Cons.prems(2) by (rule sync_rule_paths_distinct)
  show ?case
  proof (cases err1)
    case None
    with Cons.prems 1 have "sync_rules env p rn cat es U1 = (err, U')" by simp
    from Cons.IH [OF this d1] show ?thesis .
  next
    case (Some x)
    with Cons.prems 1 have "U' = U1" by simp
    with d1 show ?thesis by simp
  qed
qed

text \<open>The outcomes of one file.\<close>

lemma sync_file_cases:
  assumes "sync_file env file db = (err, db')"
  shows "(err = Some YAMLError \<and> db' = rollback db)
       \<or> (err \<noteq> None \<and> db' = db)
       \<or> (err = None \<and> db' = commit db)
       \<or> (\<exists>p rn cat es U'. sync_rules env p rn cat es (session db) = (err, U')
            \<and> (case err of None \<Rightarrow> db' = \<lparr>committed = U', session = U'\<rparr>
                | Some x \<Rightarrow> db' = db\<lparr>session := U'\<rparr>))"
proof -
  obtain c_filename loaded where f_eq: "file = (c_filename, loaded)" by force
  show ?thesis
  proof (cases loaded)
    case (Inl x)
    with assms f_eq show ?thesis by (auto simp: sync_file_def split: if_splits)
  next
    case (Inr doc)
    show ?thesis
    proof (cases doc)
      case YNone
      with assms f_eq Inr show ?thesis by (auto simp: sync_file_def Let_def)
    next
      case (YMapping rs)
      show ?thesis
      proof (cases rs)
        case None
        with assms f_eq Inr YMapping show ?thesis by (auto simp: sync_file_def Let_def)
      next
        case (Some es)
        let ?p = "str_replace c_filename (RULES_PATH env) []"
        let ?rn = "hd (str_split ?p os_path_sep)"
        let ?cat = "str_join ''.'' (butlast (tl (str_split ?p os_path_sep)))"
        obtain e1 U1 where 1: "sync_rules env ?p ?rn ?cat es (session db) = (e1, U1)" by force
        with assms f_eq Inr YMapping Some have
          "err = e1 \<and> (case e1 of None \<Rightarrow> db' = \<lparr>committed = U1, session = U1\<rparr>
                | Some x \<Rightarrow> db' = db\<lparr>session := U1\<rparr>)"
          by (auto simp: sync_file_def Let_def commit_def split: option.splits)
        with 1 show ?thesis by blast
      qed
    qed
  qed
qed

lemma sync_file_extends:
  assumes "sync_file env file db = (err, db')"
    and "store_extends W0 (committed db)" and "store_extends W0 (session db)"
  shows "store_extends W0 (committed db') \<and> store_extends W0 (session db')"
proof -
  from sync_file_cases [OF assms(1)] consider
    (rollback) "db' = rollback db" | (same) "db' = db" | (commit) "db' = commit db"
    | (rules) p rn cat es U' where "sync_rules env p rn cat es (session db) = (err, U')"
        "(case err of None \<Rightarrow> db' = \<lparr>committed = U', session = U'\<rparr>
          | Some x \<Rightarrow> db' = db\<lparr>session := U'\<rparr>)"
    by blast
  then show ?thesis
  proof cases
    case rollback
    with assms show ?thesis by (simp add: rollback_def)
  next
    case same
    with assms show ?thesis by simp
  next
    case commit
    with assms show ?thesis by (simp add: commit_def)
  next
    case rules
    from sync_rules_extends [OF rules(1)] assms(3) have "store_extends W0 U'"
      by (blast intro: store_extends_trans)
    with rules(2) assms(2) show ?thesis by (cases err) simp_all
  qed
qed

lemma sync_file_paths_distinct:
  assumes "sync_file env file db = (err, db')"
    and "distinct (map file_path (committed db))" and "distinct (map file_path (session db))"
  shows "distinct (map file_path (committed db')) \<and> distinct (map file_path (session db'))"
proof -
  from sync_file_cases [OF assms(1)] consider
    (rollback) "db' = rollback db" | (same) "db' = db" | (commit) "db' = commit db"
    | (rules) p rn cat es U' where "sync_rules env p rn cat es (session db) = (err, U')"
        "(case err of None \<Rightarrow> db' = \<lparr>committed = U', session = U'\<rparr>
          | Some x \<Rightarrow> db' = db\<lparr>session := U'\<rparr>)"
    by blast
  then show ?thesis
  proof cases
    case rollback
    with assms show ?thesis by (simp add: rollback_def)
  next
    case same
    with assms show ?thesis by simp
  next
    case commit
    with assms show ?thesis by (simp add: commit_def)
  next
    case rules
    from sync_rules_paths_distinct [OF rules(1) assms(3)]
    have "distinct (map file_path U')" .
    with rules(2) assms(2) show ?thesis by (cases err) simp_all
  qed
qed

lemma sync_files_extends:
  "sync_files env files db = (err, db') \<Longrightarrow> store_extends W0 (committed db)
    \<Longrightarrow> store_extends W0 (session db)
    \<Longrightarrow> store_extends W0 (committed db') \<and> store_extends W0 (session db')"
proof (induction files arbitrary: db)
  case Nil
  then show ?case by simp
next
  case (Cons f files)
  obtain e1 db1 where 1: "sync_file env f db = (e1, db1)" by force
  from sync_file_extends [OF 1 Cons.prems(2,3)]
  have ext: "store_extends W0 (committed db1)" "store_extends W0 (session db1)" by simp_all
  show ?case
  proof (cases e1)
    case None
    with Cons.prems(1) 1 have "sync_files env files db1 = (err, db')" by simp
    from Cons.IH [OF this ext] show ?thesis .
  next
    case (Some x)
    with Cons.prems(1) 1 have "db' = db1" by simp
    with ext show ?thesis by simp
  qed
qed

lemma sync_files_paths_distinct:
  "sync_files env files db = (err, db') \<Longrightarrow> distinct (map file_path (committed db))
    \<Longrightarrow> distinct (map file_path (session db))
    \<Longrightarrow> distinct (map file_path (committed db')) \<and> distinct (map file_path (session db'))"
proof (induction files arbitrary: db)
  case Nil
  then show ?case by simp
next
  case (Cons f files)
  obtain e1 db1 where 1: "sync_file env f db = (e1, db1)" by force
  from sync_file_paths_distinct [OF 1 Cons.prems(2,3)]
  have d: "distinct (map file_path (committed db1))" "distinct (map file_path (session db1))"
    by simp_all
  show ?case
  proof (cases e1)
    case None
    with Cons.prems(1) 1 have "sync_files env files db1 = (err, db')" by simp
    from Cons.IH [OF this d] show ?thesis .
  next
    case (Some x)
    with Cons.prems(1) 1 have "db' = db1" by simp
    with d show ?thesis by simp
  qed
qed

lemma store_extends_take:
  assumes "store_extends U W"
  shows "take (length U) (map rule_core W) = map rule_core U"
proof (rule nth_equalityI)
  show "length (take (length U) (map rule_core W)) = length (map rule_core U)"
    using assms by (simp add: store_extends_def)
next
  fix i assume "i < length (take (length U) (map rule_core W))"
  then have i: "i < length U" "i < length W" by simp_all
  with assms show "take (length U) (map rule_core W) ! i = map rule_core U ! i"
    by (simp add: store_extends_def)
qed

lemma sync_rule_lookup_or_create:
  assumes "sync_rule env p rn cat e rules = (err, rules')"
  shows "map rule_id (take (length rules) rules') = map rule_id rules
    \<and> (if \<exists>r \<in> set rules. file_path r = p
        then length rules' = length rules
        else rules' = rules \<or> (\<exists>r'. rules' = rules @ [r'] \<and> file_path r' = p))"
proof -
  from sync_rule_extends [OF assms]
  have "take (length rules) (map rule_core rules') = map rule_core rules"
    by (rule store_extends_take)
  then have "map fst (take (length rules) (map rule_core rules')) = map fst (map rule_core rules)"
    by simp
  then have ids: "map rule_id (take (length rules) rules') = map rule_id rules"
    by (simp add: take_map rule_core_def comp_def)
  from sync_rule_cases [OF assms] consider
    (upd) i r' where "first_index (\<lambda>r. file_path r = p) rules = Some i" "rules' = rules[i := r']"
    | (err) "first_index (\<lambda>r. file_path r = p) rules = None" "rules' = rules"
    | (new) t r' where "first_index (\<lambda>r. file_path r = p) rules = None"
      "update_rule env e (new_rule env rules t p rn cat) = (err, r')" "rules' = rules @ [r']"
    by (elim disjE exE conjE) blast+
  then have "if \<exists>r \<in> set rules. file_path r = p
        then length rules' = length rules
        else rules' = rules \<or> (\<exists>r'. rules' = rules @ [r'] \<and> file_path r' = p)"
  proof cases
    case upd
    from first_index_Some [OF upd(1)] have "rules ! i \<in> set rules" "file_path (rules ! i) = p"
      by simp_all
    then have "\<exists>r \<in> set rules. file_path r = p" by blast
    with upd(2) show ?thesis by simp
  next
    case err
    then show ?thesis by (simp add: first_index_None_iff)
  next
    case new
    from update_rule_core [OF new(2)] have "file_path r' = p"
      by (simp add: rule_core_def new_rule_def)
    with new(1,3) show ?thesis by (simp add: first_index_None_iff)
  qed
  with ids show ?thesis by simp
qed

text \<open>
  C2: every turn of the loop over the rule entries leaves the identifiers of the rules
  of the session as they are; if a rule of the file path exists, no rule is created,
  and otherwise at most one, with this file path, at the end of the table. So a
  synchronization that starts with no pending change and no two rules of the same file
  path ends, whatever its outcome and whatever the files hold, with no two rules of the
  same file path, in the committed table and in the session, and with every rule that
  existed before at its place with its identifier (and its title, file path, repository
  and category).
\<close>

theorem sync_db_keeps_rules:
  assumes "session db = committed db"
    and "distinct (map file_path (committed db))"
    and "sync_db env files db = (err, db')"
  shows "distinct (map file_path (committed db'))
    \<and> distinct (map file_path (session db'))
    \<and> take (length (committed db)) (map rule_core (committed db')) = map rule_core (committed db)
    \<and> take (length (committed db)) (map rule_core (session db')) = map rule_core (committed db)
    \<and> (\<forall>p rn cat e rules e1 rules'.
          sync_rule env p rn cat e rules = (e1, rules') \<longrightarrow>
            map rule_id (take (length rules) rules') = map rule_id rules
          \<and> (if \<exists>r \<in> set rules. file_path r = p
              then length rules' = length rules
              else rules' = rules \<or> (\<exists>r'. rules' = rules @ [r'] \<and> file_path r' = p)))"
proof -
  from assms(3) have run: "sync_files env files db = (err, db')" by (simp add: sync_db_def)
  from sync_files_paths_distinct [OF run] assms(1,2)
  have d: "distinct (map file_path (committed db'))" "distinct (map file_path (session db'))"
    by simp_all
  have "store_extends (committed db) (committed db)" by (rule store_extends_refl)
  moreover from this assms(1) have "store_extends (committed db) (session db)" by simp
  ultimately have "store_extends (committed db) (committed db')
      \<and> store_extends (committed db) (session db')"
    by (rule sync_files_extends [OF run])
  then have t: "take (length (committed db)) (map rule_core (committed db')) = map rule_core (committed db)"
    "take (length (committed db)) (map rule_core (session db')) = map rule_core (committed db)"
    by (simp_all add: store_extends_take)
  have "\<forall>p rn cat e rules e1 rules'.
          sync_rule env p rn cat e rules = (e1, rules') \<longrightarrow>
            map rule_id (take (length rules) rules') = map rule_id rules
          \<and> (if \<exists>r \<in> set rules. file_path r = p
              then length rules' = length rules
              else rules' = rules \<or> (\<exists>r'. rules' = rules @ [r'] \<and> file_path r' = p))"
    using sync_rule_lookup_or_create by blast
  with d t show ?thesis by blast
qed

lemma sync_files_append:
  "sync_files env (xs @ ys) db =
     (case sync_files env xs db of
        (None, db1) \<Rightarrow> sync_files env ys db1
      | (Some e, db1) \<Rightarrow> (Some e, db1))"
  by (induction xs arbitrary: db) (auto split: prod.splits option.splits)

lemma sync_file_success_committed:
  assumes "sync_file env file db = (None, db')"
  shows "committed db' = session db'"
proof -
  from sync_file_cases [OF assms] consider
    (commit) "db' = commit db"
    | (rules) U' where "db' = \<lparr>committed = U', session = U'\<rparr>"
    by auto
  then show ?thesis by cases (simp_all add: commit_def)
qed

lemma sync_files_success_committed:
  "sync_files env files db = (None, db') \<Longrightarrow> files \<noteq> [] \<Longrightarrow> committed db' = session db'"
proof (induction files arbitrary: db)
  case Nil
  then show ?case by simp
next
  case (Cons f files)
  from Cons.prems(1) obtain db1 where 1: "sync_file env f db = (None, db1)"
    and 2: "sync_files env files db1 = (None, db')"
    by (auto split: prod.splits option.splits)
  show ?case
  proof (cases "files = []")
    case True
    with 2 have "db' = db1" by simp
    with sync_file_success_committed [OF 1] show ?thesis by simp
  next
    case False
    from Cons.IH [OF 2 False] show ?thesis .
  qed
qed

text \<open>
  C3, as the code has it: when the files before the file that fails to parse are
  synchronized without error, leaving the database \<open>db1\<close>, the run ends there with the
  error \<open>YAMLError\<close> raised to the caller, no later file is read, and the pending changes
  are rolled back. The changes of the earlier files of the run were committed file by
  file and stay (the rollback changes nothing of \<open>db1\<close>); when the very first file
  fails, the committed rules are those from before the run.
\<close>

theorem sync_db_parse_failure:
  assumes "sync_db env before db = (None, db1)"
  shows "sync_db env (before @ (c_filename, Inl YAMLError) # rest) db
      = (Some YAMLError, rollback db1)
    \<and> committed (rollback db1) = committed db1
    \<and> session (rollback db1) = committed db1
    \<and> (before \<noteq> [] \<longrightarrow> rollback db1 = db1)
    \<and> (before = [] \<longrightarrow> db1 = db)"
proof -
  from assms have run: "sync_files env before db = (None, db1)" by (simp add: sync_db_def)
  have 1: "sync_db env (before @ (c_filename, Inl YAMLError) # rest) db
      = (Some YAMLError, rollback db1)"
    by (simp add: sync_db_def sync_files_append run sync_file_def)
  have 2: "before \<noteq> [] \<longrightarrow> rollback db1 = db1"
    using sync_files_success_committed [OF run] by (auto simp: rollback_def)
  have 3: "before = [] \<longrightarrow> db1 = db" using run by auto
  from 1 2 3 show ?thesis by (simp add: rollback_def)
qed

lemma entry_effect_core: "rule_core (entry_effect env e r) = rule_core r"
  by (simp add: entry_effect_def rule_core_def)

lemma entry_effect_fields:
  "cwe (entry_effect env e r) = entry_cwe e (cwe r)"
  "owasp (entry_effect env e r) = entry_owasp e (owasp r)"
  "languages (entry_effect env e r) = languages r \<union> set (entry_langs env e)"
  "Rule.severity (entry_effect env e r)
     = Some (generate_severity (TOP40_CWE_SEVERITIES env) (entry_cwe e (cwe r)))"
  by (simp_all add: entry_effect_def)

lemma entry_cwe_cases:
  "(\<forall>old. entry_cwe e old = old) \<or> (\<exists>c. \<forall>old. entry_cwe e old = c)"
  by (auto simp: entry_cwe_def split: option.splits)

lemma entry_owasp_cases:
  "(\<forall>old. entry_owasp e old = old) \<or> (\<exists>c. \<forall>old. entry_owasp e old = c)"
  by (auto simp: entry_owasp_def split: option.splits owasp_value.splits list.splits)

lemma resync_rel_init: "resync_rel env Wf U Wf"
  by (simp add: resync_rel_def)

lemma resync_rel_append:
  assumes "resync_rel env Wf U V"
  shows "resync_rel env Wf (U @ [r]) V"
  using assms unfolding resync_rel_def
  by (auto simp: nth_append)

lemma resync_rel_update:
  assumes rel: "resync_rel env Wf U V"
    and k: "k < length U"
    and ext: "store_extends (U[k := entry_effect env e (U ! k)]) Wf"
  shows "resync_rel env Wf (U[k := entry_effect env e (U ! k)]) (V[k := entry_effect env e (V ! k)])"
proof -
  let ?U' = "U[k := entry_effect env e (U ! k)]"
  let ?V' = "V[k := entry_effect env e (V ! k)]"
  let ?gs = "generate_severity (TOP40_CWE_SEVERITIES env)"
  from ext k have kW: "k < length Wf" by (simp add: store_extends_def)
  from rel have len: "length V = length Wf" by (simp add: resync_rel_def)
  have langs_U: "languages (entry_effect env e (U ! k)) \<subseteq> languages (Wf ! k)"
  proof -
    from ext have "j < length ?U' \<Longrightarrow> languages (?U' ! j) \<subseteq> languages (Wf ! j)"
      for j unfolding store_extends_def by blast
    from this [of k] show ?thesis using k by simp
  qed
  have point: "rule_core (?V' ! j) = rule_core (Wf ! j)
        \<and> languages (?V' ! j) = languages (Wf ! j)
        \<and> (cwe (?V' ! j) = cwe (Wf ! j) \<or> (j < length ?U' \<and> cwe (?V' ! j) = cwe (?U' ! j)))
        \<and> (owasp (?V' ! j) = owasp (Wf ! j) \<or> (j < length ?U' \<and> owasp (?V' ! j) = owasp (?U' ! j)))
        \<and> (Rule.severity (?V' ! j) = Rule.severity (Wf ! j)
           \<or> (j < length ?U'
              \<and> Rule.severity (?V' ! j) = Some (?gs (cwe (?V' ! j)))
              \<and> Rule.severity (?U' ! j) = Some (?gs (cwe (?U' ! j)))))"
    if j: "j < length Wf" for j
  proof (cases "j = k")
    case False
    with rel j show ?thesis by (simp add: resync_rel_def)
  next
    case True
    from rel kW have old: "rule_core (V ! k) = rule_core (Wf ! k)"
      "languages (V ! k) = languages (Wf ! k)"
      "cwe (V ! k) = cwe (Wf ! k) \<or> cwe (V ! k) = cwe (U ! k)"
      "owasp (V ! k) = owasp (Wf ! k) \<or> owasp (V ! k) = owasp (U ! k)"
      by (auto simp: resync_rel_def)
    have V'k: "?V' ! k = entry_effect env e (V ! k)" using kW len by simp
    have U'k: "?U' ! k = entry_effect env e (U ! k)" using k by simp
    have 1: "rule_core (?V' ! k) = rule_core (Wf ! k)"
      by (simp add: V'k entry_effect_core old)
    have 2: "languages (?V' ! k) = languages (Wf ! k)"
      using langs_U old(2) by (auto simp: V'k entry_effect_fields)
    have 3: "cwe (?V' ! k) = cwe (Wf ! k) \<or> cwe (?V' ! k) = cwe (?U' ! k)"
      using entry_cwe_cases [of e] old(3) by (auto simp: V'k U'k entry_effect_fields)
    have 4: "owasp (?V' ! k) = owasp (Wf ! k) \<or> owasp (?V' ! k) = owasp (?U' ! k)"
      using entry_owasp_cases [of e] old(4) by (auto simp: V'k U'k entry_effect_fields)
    have 5: "Rule.severity (?V' ! k) = Some (?gs (cwe (?V' ! k)))"
      "Rule.severity (?U' ! k) = Some (?gs (cwe (?U' ! k)))"
      by (simp_all add: V'k U'k entry_effect_fields)
    from 1 2 3 4 5 k True show ?thesis by simp
  qed
  show ?thesis
    unfolding resync_rel_def
  proof (intro conjI allI impI)
    show "length ?V' = length Wf" using len by simp
  qed (use point in blast)+
qed

lemma first_index_agree:
  assumes ext: "store_extends U' Wf"
    and idx: "first_index (\<lambda>r. file_path r = p) U' = Some k"
    and rel: "resync_rel env Wf U V"
  shows "first_index (\<lambda>r. file_path r = p) V = Some k"
proof (rule first_index_SomeI)
  from first_index_Some [OF idx] have k: "k < length U'" "file_path (U' ! k) = p"
    "\<forall>j<k. file_path (U' ! j) \<noteq> p" by simp_all
  from ext have le: "length U' \<le> length Wf" by (simp add: store_extends_def)
  from rel have len: "length V = length Wf" by (simp add: resync_rel_def)
  have same: "file_path (V ! j) = file_path (U' ! j)" if "j < length U'" for j
  proof -
    from that le have "j < length Wf" by simp
    with rel have "rule_core (V ! j) = rule_core (Wf ! j)" by (simp add: resync_rel_def)
    moreover from ext that have "rule_core (U' ! j) = rule_core (Wf ! j)"
      by (simp add: store_extends_def)
    ultimately show ?thesis by (simp add: rule_core_def)
  qed
  show "k < length V" using k le len by simp
  show "file_path (V ! k) = p" using same [of k] k by simp
  show "\<forall>j<k. file_path (V ! j) \<noteq> p"
  proof (intro allI impI)
    fix j assume "j < k"
    with k show "file_path (V ! j) \<noteq> p" using same [of j] by simp
  qed
qed

lemma repository_agree:
  assumes ext: "store_extends U' Wf" and k: "k < length U'" and rel: "resync_rel env Wf U V"
  shows "repository (V ! k) = repository (U' ! k)"
proof -
  from ext k have "k < length Wf" by (simp add: store_extends_def)
  with rel have "rule_core (V ! k) = rule_core (Wf ! k)" by (simp add: resync_rel_def)
  moreover from ext k have "rule_core (U' ! k) = rule_core (Wf ! k)"
    by (simp add: store_extends_def)
  ultimately show ?thesis by (simp add: rule_core_def)
qed

text \<open>A turn without exception, as an update of a row of a table \<open>U0\<close> that has the row.\<close>

lemma sync_rule_success_form:
  assumes "sync_rule env p rn cat e U = (None, U')"
  shows "\<exists>U0 k. (U0 = U \<or> (\<exists>r. U0 = U @ [r])) \<and> k < length U0
     \<and> U' = U0[k := entry_effect env e (U0 ! k)]
     \<and> first_index (\<lambda>r. file_path r = p) U' = Some k
     \<and> repository (U0 ! k) \<noteq> None \<and> entry_owasp_ok e"
proof -
  from sync_rule_cases [OF assms] consider
    (upd) i r' where "first_index (\<lambda>r. file_path r = p) U = Some i"
      "update_rule env e (U ! i) = (None, r')" "U' = U[i := r']"
    | (new) t r' where "first_index (\<lambda>r. file_path r = p) U = None"
      "update_rule env e (new_rule env U t p rn cat) = (None, r')" "U' = U @ [r']"
    by auto
  then show ?thesis
  proof cases
    case upd
    from first_index_Some [OF upd(1)] have i: "i < length U" "file_path (U ! i) = p"
      "\<forall>j<i. file_path (U ! j) \<noteq> p" by simp_all
    from upd(2) have ok: "entry_owasp_ok e" "repository (U ! i) \<noteq> None"
      "r' = entry_effect env e (U ! i)"
      by (simp_all add: update_rule_None_iff)
    have "file_path r' = p" using ok(3) i(2) by (simp add: entry_effect_def)
    then have "first_index (\<lambda>r. file_path r = p) U' = Some i"
      using i by (intro first_index_SomeI) (simp_all add: upd(3))
    with i(1) ok upd(3) show ?thesis by blast
  next
    case new
    let ?r = "new_rule env U t p rn cat"
    let ?U0 = "U @ [?r]"
    from new(2) have ok: "entry_owasp_ok e" "repository ?r \<noteq> None"
      "r' = entry_effect env e ?r"
      by (simp_all add: update_rule_None_iff)
    have U': "U' = ?U0[length U := entry_effect env e (?U0 ! length U)]"
      by (simp add: new(3) ok(3))
    have "file_path r' = p" using ok(3) by (simp add: entry_effect_def new_rule_def)
    moreover from new(1) have "\<forall>j<length U. file_path (U ! j) \<noteq> p"
      by (auto simp: first_index_None_iff)
    ultimately have "first_index (\<lambda>r. file_path r = p) U' = Some (length U)"
      by (intro first_index_SomeI) (simp_all add: new(3) nth_append)
    moreover have "repository (?U0 ! length U) \<noteq> None" using ok(2) by simp
    moreover have "length U < length ?U0" by simp
    ultimately show ?thesis using U' ok(1) by blast
  qed
qed

lemma resync_step:
  assumes run: "sync_rule env p rn cat e U = (None, U')"
    and ext: "store_extends U' Wf"
    and rel: "resync_rel env Wf U V"
  shows "\<exists>V'. sync_rule env p rn cat e V = (None, V') \<and> resync_rel env Wf U' V'"
proof -
  from sync_rule_success_form [OF run] obtain U0 k where
    U0: "U0 = U \<or> (\<exists>r. U0 = U @ [r])" and k: "k < length U0"
    and U': "U' = U0[k := entry_effect env e (U0 ! k)]"
    and idx: "first_index (\<lambda>r. file_path r = p) U' = Some k"
    and repo: "repository (U0 ! k) \<noteq> None" and ok: "entry_owasp_ok e"
    by blast
  from U0 rel have rel0: "resync_rel env Wf U0 V" by (auto intro: resync_rel_append)
  have idxV: "first_index (\<lambda>r. file_path r = p) V = Some k"
    using ext idx rel by (rule first_index_agree)
  have kU': "k < length U'" using k U' by simp
  have "repository (V ! k) = repository (U' ! k)"
    using ext kU' rel by (rule repository_agree)
  also have "\<dots> = repository (U0 ! k)"
    using k by (simp add: U' entry_effect_def)
  finally have "repository (V ! k) \<noteq> None" using repo by simp
  with ok have "update_rule env e (V ! k) = (None, entry_effect env e (V ! k))"
    by (simp add: update_rule_None_iff)
  with idxV have "sync_rule env p rn cat e V = (None, V[k := entry_effect env e (V ! k)])"
    by (simp add: sync_rule_def)
  moreover have "resync_rel env Wf U' (V[k := entry_effect env e (V ! k)])"
    unfolding U' using rel0 k ext [unfolded U'] by (rule resync_rel_update)
  ultimately show ?thesis by blast
qed

lemma resync_rules:
  "sync_rules env p rn cat es U = (None, U') \<Longrightarrow> store_extends U' Wf
    \<Longrightarrow> resync_rel env Wf U V
    \<Longrightarrow> \<exists>V'. sync_rules env p rn cat es V = (None, V') \<and> resync_rel env Wf U' V'"
proof (induction es arbitrary: U V)
  case Nil
  then show ?case by simp
next
  case (Cons e es)
  from Cons.prems(1) obtain U1 where 1: "sync_rule env p rn cat e U = (None, U1)"
    and 2: "sync_rules env p rn cat es U1 = (None, U')"
    by (auto split: prod.splits option.splits)
  from sync_rules_extends [OF 2] Cons.prems(2) have ext1: "store_extends U1 Wf"
    by (blast intro: store_extends_trans)
  from resync_step [OF 1 ext1 Cons.prems(3)] obtain V1 where
    V1: "sync_rule env p rn cat e V = (None, V1)" "resync_rel env Wf U1 V1" by blast
  from Cons.IH [OF 2 Cons.prems(2) V1(2)] obtain V' where
    "sync_rules env p rn cat es V1 = (None, V')" "resync_rel env Wf U' V'" by blast
  with V1(1) show ?case by simp
qed

lemma sync_file_session_extends:
  assumes "sync_file env file db = (None, db')"
  shows "store_extends (session db) (session db')"
proof -
  from sync_file_cases [OF assms] consider
    (commit) "db' = commit db"
    | (rules) p rn cat es U' where "sync_rules env p rn cat es (session db) = (None, U')"
        "db' = \<lparr>committed = U', session = U'\<rparr>"
    by auto
  then show ?thesis
  proof cases
    case commit
    then show ?thesis by (simp add: commit_def store_extends_refl)
  next
    case rules
    from sync_rules_extends [OF rules(1)] rules(2) show ?thesis by simp
  qed
qed

lemma sync_files_session_extends:
  "sync_files env files db = (None, db') \<Longrightarrow> store_extends (session db) (session db')"
proof (induction files arbitrary: db)
  case Nil
  then show ?case by (simp add: store_extends_refl)
next
  case (Cons f files)
  from Cons.prems obtain db1 where 1: "sync_file env f db = (None, db1)"
    and 2: "sync_files env files db1 = (None, db')"
    by (auto split: prod.splits option.splits)
  from sync_file_session_extends [OF 1] Cons.IH [OF 2] show ?case
    by (blast intro: store_extends_trans)
qed

lemma resync_file:
  assumes run: "sync_file env file db = (None, db')"
    and ext: "store_extends (session db') Wf"
    and rel: "resync_rel env Wf (session db) (session dbv)"
  shows "\<exists>dbv'. sync_file env file dbv = (None, dbv')
     \<and> resync_rel env Wf (session db') (session dbv')"
proof -
  obtain c_filename loaded where f_eq: "file = (c_filename, loaded)" by force
  show ?thesis
  proof (cases loaded)
    case (Inl x)
    with run f_eq show ?thesis by (simp add: sync_file_def split: if_splits)
  next
    case (Inr doc)
    show ?thesis
    proof (cases doc)
      case YNone
      with run f_eq Inr show ?thesis by (simp add: sync_file_def Let_def)
    next
      case (YMapping rs)
      show ?thesis
      proof (cases rs)
        case None
        with run f_eq Inr YMapping have "db' = commit db"
          by (simp add: sync_file_def Let_def)
        moreover from f_eq Inr YMapping None
        have "sync_file env file dbv = (None, commit dbv)"
          by (simp add: sync_file_def Let_def)
        ultimately show ?thesis using rel by (simp add: commit_def)
      next
        case (Some es)
        let ?p = "str_replace c_filename (RULES_PATH env) []"
        let ?rn = "hd (str_split ?p os_path_sep)"
        let ?cat = "str_join ''.'' (butlast (tl (str_split ?p os_path_sep)))"
        obtain e1 U1 where 1: "sync_rules env ?p ?rn ?cat es (session db) = (e1, U1)" by force
        with run f_eq Inr YMapping Some have e1: "e1 = None"
          and db': "db' = commit (db\<lparr>session := U1\<rparr>)"
          by (auto simp: sync_file_def Let_def split: option.splits)
        from db' have s': "session db' = U1" by (simp add: commit_def)
        from resync_rules [OF 1 [unfolded e1] ext [unfolded s'] rel] obtain V1 where
          V1: "sync_rules env ?p ?rn ?cat es (session dbv) = (None, V1)"
          "resync_rel env Wf U1 V1" by blast
        from V1(1) f_eq Inr YMapping Some
        have "sync_file env file dbv = (None, commit (dbv\<lparr>session := V1\<rparr>))"
          by (simp add: sync_file_def Let_def)
        with V1(2) s' show ?thesis by (simp add: commit_def)
      qed
    qed
  qed
qed

lemma resync_files:
  "sync_files env files db = (None, db') \<Longrightarrow> store_extends (session db') Wf
    \<Longrightarrow> resync_rel env Wf (session db) (session dbv)
    \<Longrightarrow> \<exists>dbv'. sync_files env files dbv = (None, dbv')
          \<and> resync_rel env Wf (session db') (session dbv')"
proof (induction files arbitrary: db dbv)
  case Nil
  then show ?case by simp
next
  case (Cons f files)
  from Cons.prems(1) obtain db1 where 1: "sync_file env f db = (None, db1)"
    and 2: "sync_files env files db1 = (None, db')"
    by (auto split: prod.splits option.splits)
  from sync_files_session_extends [OF 2] Cons.prems(2) have ext1: "store_extends (session db1) Wf"
    by (blast intro: store_extends_trans)
  from resync_file [OF 1 ext1 Cons.prems(3)] obtain dbv1 where
    v1: "sync_file env f dbv = (None, dbv1)" "resync_rel env Wf (session db1) (session dbv1)"
    by blast
  from Cons.IH [OF 2 Cons.prems(2) v1(2)] obtain dbv' where
    "sync_files env files dbv1 = (None, dbv')" "resync_rel env Wf (session db') (session dbv')"
    by blast
  with v1(1) show ?case by simp
qed

lemma resync_rel_final:
  assumes "resync_rel env Wf Wf V"
  shows "V = Wf"
proof (rule nth_equalityI)
  from assms show len: "length V = length Wf" by (simp add: resync_rel_def)
  fix k assume "k < length V"
  with len have k: "k < length Wf" by simp
  from assms k have f: "rule_core (V ! k) = rule_core (Wf ! k)"
    "languages (V ! k) = languages (Wf ! k)"
    "cwe (V ! k) = cwe (Wf ! k)" "owasp (V ! k) = owasp (Wf ! k)"
    by (auto simp: resync_rel_def)
  from assms k f(3) have "Rule.severity (V ! k) = Rule.severity (Wf ! k)"
    by (auto simp: resync_rel_def)
  with f show "V ! k = Wf ! k"
    by (auto simp: rule_core_def intro!: Rule.equality)
qed

text \<open>
  C7: when a synchronization ends without error, a second synchronization of the same
  files ends without error too and leaves the database as the first run left it, the
  session and the committed table: the same rules with the same identifiers, none
  created and none removed, and every rule with the same title, file path, repository,
  category, CWE, OWASP, severity and associated languages.
\<close>

theorem sync_db_twice:
  assumes "sync_db env files db = (None, db1)"
  shows "sync_db env files db1 = (None, db1)"
proof (cases "files = []")
  case True
  with assms show ?thesis by (simp add: sync_db_def)
next
  case False
  from assms have run: "sync_files env files db = (None, db1)" by (simp add: sync_db_def)
  have "store_extends (session db1) (session db1)" by (rule store_extends_refl)
  moreover have "resync_rel env (session db1) (session db) (session db1)"
    by (rule resync_rel_init)
  ultimately obtain db2 where db2: "sync_files env files db1 = (None, db2)"
    "resync_rel env (session db1) (session db1) (session db2)"
    using resync_files [OF run] by blast
  from resync_rel_final [OF db2(2)] have s: "session db2 = session db1" .
  from sync_files_success_committed [OF run False]
    sync_files_success_committed [OF db2(1) False]
  have "committed db1 = session db1" "committed db2 = session db2" by simp_all
  with s have "db2 = db1" by (simp add: rule_db.equality)
  with db2(1) show ?thesis by (simp add: sync_db_def)
qed

subsection \<open>Runs on example files\<close>

lemma example_env_fields:
  "RULES_PATH example_env = ''data/rules/''"
  "TOP40_CWE_SEVERITIES example_env = example_top40"
  "find (\<lambda>r. RuleRepository.name r = ''semgrep'') (rule_repositories example_env)
     = Some \<lparr>RuleRepository.name = ''semgrep''\<rparr>"
  by (simp_all add: example_env_def)

lemma example_paths:
  "str_replace ''data/rules/semgrep/python/lang/xss.yaml'' ''data/rules/'' []
     = ''semgrep/python/lang/xss.yaml''"
  "hd (str_split ''semgrep/python/lang/xss.yaml'' os_path_sep) = ''semgrep''"
  "str_join ''.'' (butlast (tl (str_split ''semgrep/python/lang/xss.yaml'' os_path_sep)))
     = ''python.lang''"
  by (simp_all add: str_replace.simps os_path_sep_def)

lemma example_languages:
  "matching_languages (supported_languages example_env) [''python'']
     = [\<lparr>SupportedLanguage.name = ''Python''\<rparr>]"
  by (simp add: matching_languages_def example_env_def lower_char_def
      uppercase_letters_def lowercase_letters_def)

lemma example_severities:
  "generate_severity example_top40 (Some ''CWE-79: XSS'') = SEVERITY_HIGH"
  "generate_severity example_top40 (Some ''CWE-89: SQL injection'') = SEVERITY_CRITICAL"
  by (simp_all add: generate_severity_def example_top40_def is_digit_def upper_char_def
      uppercase_letters_def lowercase_letters_def)

lemma example_update:
  "update_rule example_env (example_entry i c) (example_rule c0 s0 ls)
     = (None, example_rule c (generate_severity example_top40 (Some c))
          (insert \<lparr>SupportedLanguage.name = ''Python''\<rparr> ls))"
  by (simp add: update_rule_def example_entry_def example_languages set_severity_and_log_def
      example_env_fields example_rule_def)

lemma example_create:
  "sync_rule example_env ''semgrep/python/lang/xss.yaml'' ''semgrep'' ''python.lang''
     (example_entry ''xss'' c) []
     = (None, [example_rule c (generate_severity example_top40 (Some c))
          {\<lparr>SupportedLanguage.name = ''Python''\<rparr>}])"
  by (simp add: sync_rule_def update_rule_def example_entry_def example_languages
      set_severity_and_log_def example_env_fields example_rule_def new_rule_id_def)

lemma example_resync:
  "sync_rule example_env ''semgrep/python/lang/xss.yaml'' ''semgrep'' ''python.lang''
     (example_entry i c) [example_rule c0 s0 ls]
     = (None, [example_rule c (generate_severity example_top40 (Some c))
          (insert \<lparr>SupportedLanguage.name = ''Python''\<rparr> ls)])"
proof -
  have "first_index (\<lambda>r. file_path r = ''semgrep/python/lang/xss.yaml'') [example_rule c0 s0 ls]
      = Some 0"
    by (simp add: example_rule_def)
  then show ?thesis by (simp add: sync_rule_def example_update)
qed

lemma example_first_run:
  "sync_db example_env [example_file c] (example_db [])
     = (None, example_db [example_rule c (generate_severity example_top40 (Some c))
          {\<lparr>SupportedLanguage.name = ''Python''\<rparr>}])"
  by (simp only: sync_db_def sync_files.simps sync_file_def example_file_def prod.case
      sum.case Let_def example_env_fields example_paths yaml_document.case option.case)
     (simp only: example_db_def rule_db.simps sync_rules.simps example_create prod.case
      option.case commit_def)

lemma example_next_run:
  "sync_db example_env [example_file c] (example_db [example_rule c0 s0 ls])
     = (None, example_db [example_rule c (generate_severity example_top40 (Some c))
          (insert \<lparr>SupportedLanguage.name = ''Python''\<rparr> ls)])"
  by (simp only: sync_db_def sync_files.simps sync_file_def example_file_def prod.case
      sum.case Let_def example_env_fields example_paths yaml_document.case option.case)
     (simp only: example_db_def rule_db.simps sync_rules.simps example_resync prod.case
      option.case commit_def)

lemma example_broken_run:
  "sync_db example_env [example_broken_file] db = (Some YAMLError, rollback db)"
  by (simp add: sync_db_def sync_file_def example_broken_file_def)

theorem sync_db_twice_witness:
  "sync_db example_env [example_file ''CWE-79: XSS''] (example_db [])
     = (None, example_db [example_rule ''CWE-79: XSS'' SEVERITY_HIGH
          {\<lparr>SupportedLanguage.name = ''Python''\<rparr>}])
   \<and> sync_db example_env [example_file ''CWE-79: XSS'']
       (example_db [example_rule ''CWE-79: XSS'' SEVERITY_HIGH
          {\<lparr>SupportedLanguage.name = ''Python''\<rparr>}])
     = (None, example_db [example_rule ''CWE-79: XSS'' SEVERITY_HIGH
          {\<lparr>SupportedLanguage.name = ''Python''\<rparr>}])"
proof -
  let ?db1 = "example_db [example_rule ''CWE-79: XSS'' SEVERITY_HIGH
          {\<lparr>SupportedLanguage.name = ''Python''\<rparr>}]"
  have run: "sync_db example_env [example_file ''CWE-79: XSS''] (example_db []) = (None, ?db1)"
    by (simp only: example_first_run example_severities)
  from sync_db_twice [OF run] run show ?thesis by (intro conjI)
qed

theorem sync_db_keeps_rules_witness:
  "session (example_db [example_rule ''CWE-79: XSS'' SEVERITY_HIGH {}])
     = committed (example_db [example_rule ''CWE-79: XSS'' SEVERITY_HIGH {}])
   \<and> distinct (map file_path (committed (example_db [example_rule ''CWE-79: XSS'' SEVERITY_HIGH {}])))
   \<and> sync_db example_env [example_file ''CWE-89: SQL injection'']
       (example_db [example_rule ''CWE-79: XSS'' SEVERITY_HIGH {}])
     = (None, example_db [example_rule ''CWE-89: SQL injection'' SEVERITY_CRITICAL
          {\<lparr>SupportedLanguage.name = ''Python''\<rparr>}])
   \<and> distinct (map file_path (committed (example_db
        [example_rule ''CWE-89: SQL injection'' SEVERITY_CRITICAL
          {\<lparr>SupportedLanguage.name = ''Python''\<rparr>}])))
   \<and> take (length (committed (example_db [example_rule ''CWE-79: XSS'' SEVERITY_HIGH {}])))
        (map rule_core (committed (example_db
          [example_rule ''CWE-89: SQL injection'' SEVERITY_CRITICAL
            {\<lparr>SupportedLanguage.name = ''Python''\<rparr>}])))
     = map rule_core (committed (example_db [example_rule ''CWE-79: XSS'' SEVERITY_HIGH {}]))"
proof -
  let ?db = "example_db [example_rule ''CWE-79: XSS'' SEVERITY_HIGH {}]"
  let ?db' = "example_db [example_rule ''CWE-89: SQL injection'' SEVERITY_CRITICAL
          {\<lparr>SupportedLanguage.name = ''Python''\<rparr>}]"
  have clean: "session ?db = committed ?db" by (simp add: example_db_def)
  have dist: "distinct (map file_path (committed ?db))" by (simp add: example_db_def)
  have run: "sync_db example_env [example_file ''CWE-89: SQL injection''] ?db = (None, ?db')"
    by (simp only: example_next_run example_severities)
  from sync_db_keeps_rules [OF clean dist run] clean dist run show ?thesis by blast
qed

theorem sync_db_parse_failure_witness:
  "sync_db example_env [example_file ''CWE-79: XSS''] (example_db [])
     = (None, example_db [example_rule ''CWE-79: XSS'' SEVERITY_HIGH
          {\<lparr>SupportedLanguage.name = ''Python''\<rparr>}])
   \<and> sync_db example_env
       ([example_file ''CWE-79: XSS''] @ example_broken_file # [example_file ''CWE-89: SQL injection''])
       (example_db [])
     = (Some YAMLError, example_db [example_rule ''CWE-79: XSS'' SEVERITY_HIGH
          {\<lparr>SupportedLanguage.name = ''Python''\<rparr>}])"
proof -
  let ?db1 = "example_db [example_rule ''CWE-79: XSS'' SEVERITY_HIGH
          {\<lparr>SupportedLanguage.name = ''Python''\<rparr>}]"
  have run: "sync_db example_env [example_file ''CWE-79: XSS''] (example_db []) = (None, ?db1)"
    by (simp only: example_first_run example_severities)
  from sync_db_parse_failure [OF run,
      of "''data/rules/semgrep/python/lang/broken.yaml''" "[example_file ''CWE-89: SQL injection'']"]
  have "sync_db example_env
       ([example_file ''CWE-79: XSS''] @ example_broken_file # [example_file ''CWE-89: SQL injection''])
       (example_db []) = (Some YAMLError, rollback ?db1)"
    and "rollback ?db1 = ?db1"
    by (simp_all add: example_broken_file_def)
  with run show ?thesis by simp
qed

text \<open>
  C3 as stated fails: a file that parses, followed by a file that does not, leaves the
  rule of the first file committed, so the rule store is not as it was before the run.
\<close>

theorem sync_db_parse_failure_counterexample:
  "sync_db example_env [example_file ''CWE-79: XSS'', example_broken_file] (example_db [])
     = (Some YAMLError, example_db [example_rule ''CWE-79: XSS'' SEVERITY_HIGH
          {\<lparr>SupportedLanguage.name = ''Python''\<rparr>}])
   \<and> committed (example_db [example_rule ''CWE-79: XSS'' SEVERITY_HIGH
          {\<lparr>SupportedLanguage.name = ''Python''\<rparr>}])
     \<noteq> committed (example_db [])"
proof -
  let ?db1 = "example_db [example_rule ''CWE-79: XSS'' SEVERITY_HIGH
          {\<lparr>SupportedLanguage.name = ''Python''\<rparr>}]"
  have run: "sync_db example_env [example_file ''CWE-79: XSS''] (example_db []) = (None, ?db1)"
    by (simp only: example_first_run example_severities)
  have "sync_files example_env ([example_file ''CWE-79: XSS''] @ [example_broken_file]) (example_db [])
      = (Some YAMLError, rollback ?db1)"
    using run example_broken_run [of ?db1]
    by (simp only: sync_files_append sync_db_def prod.case option.case)
  moreover have "rollback ?db1 = ?db1" by (simp add: rollback_def example_db_def)
  ultimately have "sync_db example_env [example_file ''CWE-79: XSS'', example_broken_file]
      (example_db []) = (Some YAMLError, ?db1)"
    by (simp add: sync_db_def)
  moreover have "committed ?db1 \<noteq> committed (example_db [])" by (simp add: example_db_def)
  ultimately show ?thesis by (intro conjI)
qed

end
